theory Spec2Isabelle
  imports Complex_Main "HOL-Library.Multiset"
begin

section \<open>Two-layer network of Neural\_Networks/TwoLayerNN.py\<close>

text \<open>
  The network is modelled over exact real arithmetic: a Python float is a \<open>real\<close>, and
  the one quotient that has no real value (0.0 / 0, which numpy evaluates to nan) is the
  extra value \<open>NaN\<close> of \<open>pyfloat\<close>. Rounding, overflow and infinities of IEEE floats are
  outside the model. Python integers are \<open>int\<close>. The source is Python 2: \<open>/\<close> on two
  integers is floor division, \<open>xrange\<close> is the integer range.

  Arrays that are shared or mutated in place (the parameters, the input batch, the
  gradients) live in an explicit store and are passed by address; immutable temporaries
  are values. numpy's global random generator is an explicit argument of the two
  operations that draw from it.
\<close>

subsection \<open>Errors and floats\<close>

datatype error = ValueError | IndexError | KeyError | ZeroDivisionError | AttributeError | BadAddress

datatype pyfloat = Fin real | NaN

subsection \<open>Two-dimensional float arrays\<close>

record ndarray =
  nrows :: nat
  ncols :: nat
  cells :: "real list list"

definition mk :: "nat \<Rightarrow> nat \<Rightarrow> (nat \<Rightarrow> nat \<Rightarrow> real) \<Rightarrow> ndarray" where
  "mk r c f = \<lparr>nrows = r, ncols = c, cells = map (\<lambda>i. map (f i) [0..<c]) [0..<r]\<rparr>"

definition elt :: "ndarray \<Rightarrow> nat \<Rightarrow> nat \<Rightarrow> real" where
  "elt A i j = cells A ! i ! j"

definition wf_array :: "ndarray \<Rightarrow> bool" where
  "wf_array A = (length (cells A) = nrows A \<and> list_all (\<lambda>r. length r = ncols A) (cells A))"

text \<open>numpy broadcasting of one axis: equal lengths, or one of them is 1.\<close>

definition bshape :: "nat \<Rightarrow> nat \<Rightarrow> nat option" where
  "bshape m n = (if m = n then Some m else if m = 1 then Some n
                 else if n = 1 then Some m else None)"

definition belt :: "ndarray \<Rightarrow> nat \<Rightarrow> nat \<Rightarrow> real" where
  "belt A i j = elt A (if nrows A = 1 then 0 else i) (if ncols A = 1 then 0 else j)"

definition broadcast2 :: "(real \<Rightarrow> real \<Rightarrow> real) \<Rightarrow> ndarray \<Rightarrow> ndarray \<Rightarrow> error + ndarray" where
  "broadcast2 f A B =
     (case bshape (nrows A) (nrows B) of
        None \<Rightarrow> Inl ValueError
      | Some r \<Rightarrow>
          (case bshape (ncols A) (ncols B) of
             None \<Rightarrow> Inl ValueError
           | Some c \<Rightarrow> Inr (mk r c (\<lambda>i j. f (belt A i j) (belt B i j)))))"

definition np_add :: "ndarray \<Rightarrow> ndarray \<Rightarrow> error + ndarray" where
  "np_add = broadcast2 (+)"

definition np_sub :: "ndarray \<Rightarrow> ndarray \<Rightarrow> error + ndarray" where
  "np_sub = broadcast2 (-)"

definition np_mul :: "ndarray \<Rightarrow> ndarray \<Rightarrow> error + ndarray" where
  "np_mul = broadcast2 (*)"

definition np_div :: "ndarray \<Rightarrow> ndarray \<Rightarrow> error + ndarray" where
  "np_div = broadcast2 (/)"

text \<open>An in-place operator \<open>A op= V\<close> writes into the buffer of \<open>A\<close>: the broadcast
  result must have the shape of \<open>A\<close>.\<close>

definition inplace2 :: "(real \<Rightarrow> real \<Rightarrow> real) \<Rightarrow> ndarray \<Rightarrow> ndarray \<Rightarrow> error + ndarray" where
  "inplace2 f A V =
     (case broadcast2 f A V of
        Inl e \<Rightarrow> Inl e
      | Inr R \<Rightarrow> if nrows R = nrows A \<and> ncols R = ncols A then Inr R else Inl ValueError)"

definition scale :: "real \<Rightarrow> ndarray \<Rightarrow> ndarray" where
  "scale c A = mk (nrows A) (ncols A) (\<lambda>i j. c * elt A i j)"

definition divide_by :: "ndarray \<Rightarrow> real \<Rightarrow> ndarray" where
  "divide_by A c = mk (nrows A) (ncols A) (\<lambda>i j. elt A i j / c)"

definition np_dot :: "ndarray \<Rightarrow> ndarray \<Rightarrow> error + ndarray" where
  "np_dot A B =
     (if ncols A = nrows B
      then Inr (mk (nrows A) (ncols B) (\<lambda>i j. \<Sum>k\<leftarrow>[0..<ncols A]. elt A i k * elt B k j))
      else Inl ValueError)"

definition transpose_T :: "ndarray \<Rightarrow> ndarray" where
  "transpose_T A = mk (ncols A) (nrows A) (\<lambda>i j. elt A j i)"

definition np_exp :: "ndarray \<Rightarrow> ndarray" where
  "np_exp A = mk (nrows A) (ncols A) (\<lambda>i j. exp (elt A i j))"

definition ReLU :: "ndarray \<Rightarrow> ndarray" where
  "ReLU x = mk (nrows x) (ncols x) (\<lambda>i j. max 0 (elt x i j))"

text \<open>Reductions. \<open>np.max\<close> has no identity: it raises on an axis of length 0.\<close>

definition np_max_axis1 :: "ndarray \<Rightarrow> error + ndarray" where
  "np_max_axis1 A =
     (if ncols A = 0 then Inl ValueError
      else Inr (mk (nrows A) 1 (\<lambda>i j. Max (set (map (elt A i) [0..<ncols A])))))"

definition np_sum_axis1 :: "ndarray \<Rightarrow> ndarray" where
  "np_sum_axis1 A = mk (nrows A) 1 (\<lambda>i j. \<Sum>k\<leftarrow>[0..<ncols A]. elt A i k)"

definition np_sum_axis0 :: "ndarray \<Rightarrow> ndarray" where
  "np_sum_axis0 A = mk 1 (ncols A) (\<lambda>i j. \<Sum>k\<leftarrow>[0..<nrows A]. elt A k j)"

definition np_sum :: "ndarray \<Rightarrow> real" where
  "np_sum A = (\<Sum>i\<leftarrow>[0..<nrows A]. \<Sum>j\<leftarrow>[0..<ncols A]. elt A i j)"

text \<open>\<open>np.argmax(scores, axis=1)\<close>: the first index of the largest entry of each row.\<close>

fun argmax_from :: "real list \<Rightarrow> nat \<Rightarrow> nat \<Rightarrow> real \<Rightarrow> nat" where
  "argmax_from [] i best v = best"
| "argmax_from (x # xs) i best v =
     (if v < x then argmax_from xs (Suc i) i x else argmax_from xs (Suc i) best v)"

definition argmax :: "real list \<Rightarrow> nat" where
  "argmax xs = argmax_from (tl xs) 1 0 (hd xs)"

definition np_argmax_axis1 :: "ndarray \<Rightarrow> error + nat list" where
  "np_argmax_axis1 A =
     (if ncols A = 0 then Inl ValueError
      else Inr (map (\<lambda>i. argmax (map (elt A i) [0..<ncols A])) [0..<nrows A]))"

subsection \<open>Integer-array indexing\<close>

text \<open>An index \<open>i\<close> into an axis of length \<open>n\<close>: negative indices count from the end.\<close>

definition norm_index :: "nat \<Rightarrow> int \<Rightarrow> nat option" where
  "norm_index n i =
     (if 0 \<le> i \<and> i < int n then Some (nat i)
      else if - int n \<le> i \<and> i < 0 then Some (nat (i + int n))
      else None)"

text \<open>\<open>A[range(N), y]\<close>: the two index arrays are broadcast against each other and give
  the list of positions \<open>(row, column)\<close> that are read or written.\<close>

definition fancy_positions :: "ndarray \<Rightarrow> nat \<Rightarrow> int list \<Rightarrow> error + (nat \<times> nat) list" where
  "fancy_positions A N y =
     (case bshape N (length y) of
        None \<Rightarrow> Inl IndexError
      | Some L \<Rightarrow>
          (let rs = map (\<lambda>k. if N = 1 then 0 else k) [0..<L];
               cs = map (\<lambda>k. norm_index (ncols A) (y ! (if length y = 1 then 0 else k))) [0..<L]
           in if list_all (\<lambda>r. r < nrows A) rs \<and> list_all (\<lambda>c. c \<noteq> None) cs
              then Inr (zip rs (map the cs))
              else Inl IndexError))"

definition take_positions :: "ndarray \<Rightarrow> (nat \<times> nat) list \<Rightarrow> real list" where
  "take_positions A ps = map (\<lambda>(i, j). elt A i j) ps"

definition sub_at_positions :: "ndarray \<Rightarrow> (nat \<times> nat) list \<Rightarrow> real \<Rightarrow> ndarray" where
  "sub_at_positions A ps c =
     mk (nrows A) (ncols A) (\<lambda>i j. if (i, j) \<in> set ps then elt A i j - c else elt A i j)"

text \<open>\<open>A[M <= 0] = 0\<close> for a boolean mask of the shape of \<open>A\<close>.\<close>

definition zero_where_nonpos :: "ndarray \<Rightarrow> ndarray \<Rightarrow> error + ndarray" where
  "zero_where_nonpos A M =
     (if nrows M = nrows A \<and> ncols M = ncols A
      then Inr (mk (nrows A) (ncols A) (\<lambda>i j. if elt M i j \<le> 0 then 0 else elt A i j))
      else Inl IndexError)"

text \<open>\<open>X[sample_index, :]\<close> and \<open>y[sample_index]\<close> copy the selected rows and labels.\<close>

definition take_rows :: "ndarray \<Rightarrow> nat list \<Rightarrow> error + ndarray" where
  "take_rows A idx =
     (if list_all (\<lambda>i. i < nrows A) idx
      then Inr (mk (length idx) (ncols A) (\<lambda>i j. elt A (idx ! i) j))
      else Inl IndexError)"

definition take_labels :: "int list \<Rightarrow> nat list \<Rightarrow> error + int list" where
  "take_labels y idx =
     (if list_all (\<lambda>i. i < length y) idx then Inr (map (\<lambda>i. y ! i) idx) else Inl IndexError)"

subsection \<open>The store and programs over it\<close>

type_synonym addr = nat
type_synonym heap = "ndarray list"
type_synonym 'a prog = "heap \<Rightarrow> (error + 'a) \<times> heap"

definition ret :: "'a \<Rightarrow> 'a prog" where
  "ret x = (\<lambda>h. (Inr x, h))"

definition raise :: "error \<Rightarrow> 'a prog" where
  "raise e = (\<lambda>h. (Inl e, h))"

definition seq :: "'a prog \<Rightarrow> ('a \<Rightarrow> 'b prog) \<Rightarrow> 'b prog" where
  "seq m f = (\<lambda>h. case m h of (Inl e, h') \<Rightarrow> (Inl e, h') | (Inr x, h') \<Rightarrow> f x h')"

definition lift :: "error + 'a \<Rightarrow> 'a prog" where
  "lift r = (case r of Inl e \<Rightarrow> raise e | Inr x \<Rightarrow> ret x)"

definition new :: "ndarray \<Rightarrow> addr prog" where
  "new v = (\<lambda>h. (Inr (length h), h @ [v]))"

definition rd :: "addr \<Rightarrow> ndarray prog" where
  "rd a = (\<lambda>h. if a < length h then (Inr (h ! a), h) else (Inl BadAddress, h))"

definition wr :: "addr \<Rightarrow> ndarray \<Rightarrow> unit prog" where
  "wr a v = (\<lambda>h. if a < length h then (Inr (), h[a := v]) else (Inl BadAddress, h))"

definition getitem :: "(string \<rightharpoonup> 'v) \<Rightarrow> string \<Rightarrow> 'v prog" where
  "getitem d k = (case d k of None \<Rightarrow> raise KeyError | Some v \<Rightarrow> ret v)"

subsection \<open>Random draws\<close>

text \<open>\<open>np.random.randn(d0, d1)\<close> fills a \<open>d0 \<times> d1\<close> array from the stream \<open>g\<close> of
  standard normal draws, and \<open>np.random.choice(a, size, replace=True)\<close> reduces \<open>size\<close>
  raw draws of the stream \<open>u\<close> into \<open>[0, a)\<close>; no two drawn indices are required to
  differ. The distribution of the streams is outside the model.\<close>

definition np_random_randn :: "(nat \<Rightarrow> real) \<Rightarrow> int \<Rightarrow> int \<Rightarrow> error + ndarray" where
  "np_random_randn g d0 d1 =
     (if d0 < 0 \<or> d1 < 0 then Inl ValueError
      else Inr (mk (nat d0) (nat d1) (\<lambda>i j. g (i * nat d1 + j))))"

definition np_zeros :: "int \<Rightarrow> int \<Rightarrow> error + ndarray" where
  "np_zeros d0 d1 =
     (if d0 < 0 \<or> d1 < 0 then Inl ValueError else Inr (mk (nat d0) (nat d1) (\<lambda>i j. 0)))"

definition np_random_choice :: "(nat \<Rightarrow> nat) \<Rightarrow> nat \<Rightarrow> int \<Rightarrow> error + nat list" where
  "np_random_choice u a sz =
     (if a = 0 \<or> sz < 0 then Inl ValueError
      else Inr (map (\<lambda>k. u k mod a) [0..<nat sz]))"

subsection \<open>The model object\<close>

record TwoLayerNet =
  params :: "string \<rightharpoonup> addr"

definition init :: "(nat \<Rightarrow> real) \<Rightarrow> int \<Rightarrow> int \<Rightarrow> int \<Rightarrow> real \<Rightarrow> TwoLayerNet prog" where
  "init g input_size hidden_size output_size std =
     seq (lift (np_random_randn g input_size hidden_size)) (\<lambda>r1.
     seq (new (scale std r1)) (\<lambda>W1.
     seq (lift (np_zeros 1 hidden_size)) (\<lambda>z1.
     seq (new z1) (\<lambda>b1.
     seq (lift (np_random_randn (\<lambda>k. g (nat (input_size * hidden_size) + k))
                  hidden_size output_size)) (\<lambda>r2.
     seq (new (scale std r2)) (\<lambda>W2.
     seq (lift (np_zeros 1 output_size)) (\<lambda>z2.
     seq (new z2) (\<lambda>b2.
     ret \<lparr>params = [''W1'' \<mapsto> W1, ''b1'' \<mapsto> b1, ''W2'' \<mapsto> W2, ''b2'' \<mapsto> b2]\<rparr>))))))))"

subsection \<open>loss\<close>

datatype loss_result = Scores addr | LossGrads pyfloat "string \<rightharpoonup> addr"

definition mean_over :: "real list \<Rightarrow> nat \<Rightarrow> pyfloat" where
  "mean_over xs N = (if N = 0 then NaN else Fin (sum_list xs / real N))"

definition fadd :: "pyfloat \<Rightarrow> real \<Rightarrow> pyfloat" where
  "fadd a b = (case a of NaN \<Rightarrow> NaN | Fin x \<Rightarrow> Fin (x + b))"

definition loss :: "TwoLayerNet \<Rightarrow> addr \<Rightarrow> int list option \<Rightarrow> real \<Rightarrow> loss_result prog" where
  "loss self X y reg =
     seq (getitem (params self) ''W1'') (\<lambda>W1.
     seq (getitem (params self) ''b1'') (\<lambda>b1.
     seq (getitem (params self) ''W2'') (\<lambda>W2.
     seq (getitem (params self) ''b2'') (\<lambda>b2.
     seq (rd X) (\<lambda>Xs.
     let N = nrows Xs in
     seq (rd X) (\<lambda>Xv.
     seq (rd W1) (\<lambda>W1v.
     seq (lift (np_dot Xv W1v)) (\<lambda>xw.
     seq (rd b1) (\<lambda>b1v.
     seq (lift (np_add xw b1v)) (\<lambda>pre.
     let h1 = ReLU pre in
     seq (rd W2) (\<lambda>W2v.
     seq (lift (np_dot h1 W2v)) (\<lambda>hw.
     seq (rd b2) (\<lambda>b2v.
     seq (lift (np_add hw b2v)) (\<lambda>outv.
     seq (new outv) (\<lambda>scores.
     case y of
       None \<Rightarrow> ret (Scores scores)
     | Some y \<Rightarrow>
     seq (rd scores) (\<lambda>sv.
     seq (lift (np_max_axis1 sv)) (\<lambda>scores_max.
     seq (lift (np_sub sv scores_max)) (\<lambda>shifted.
     let exp_scores = np_exp shifted in
     seq (lift (np_div exp_scores (np_sum_axis1 exp_scores))) (\<lambda>pv.
     seq (new pv) (\<lambda>probs.
     seq (rd probs) (\<lambda>pv.
     seq (lift (fancy_positions pv N y)) (\<lambda>ps.
     let correct_logprobs = map (\<lambda>p. - ln p) (take_positions pv ps);
         data_loss = mean_over correct_logprobs N in
     seq (rd W1) (\<lambda>W1v.
     seq (lift (np_mul W1v W1v)) (\<lambda>sq1.
     seq (rd W2) (\<lambda>W2v.
     seq (lift (np_mul W2v W2v)) (\<lambda>sq2.
     let reg_loss = 0.5 * reg * np_sum sq1 + 0.5 * reg * np_sum sq2;
         loss = fadd data_loss reg_loss;
         dscores = probs in
     seq (rd dscores) (\<lambda>dv.
     seq (lift (fancy_positions dv N y)) (\<lambda>ps.
     seq (wr dscores (sub_at_positions dv ps 1)) (\<lambda>_.
     seq (rd dscores) (\<lambda>dv.
     seq (wr dscores (divide_by dv (real N))) (\<lambda>_.
     seq (rd dscores) (\<lambda>dv.
     seq (lift (np_dot (transpose_T h1) dv)) (\<lambda>g.
     seq (new g) (\<lambda>dW2.
     seq (rd dscores) (\<lambda>dv.
     seq (new (np_sum_axis0 dv)) (\<lambda>db2.
     seq (rd dscores) (\<lambda>dv.
     seq (rd W2) (\<lambda>W2v.
     seq (lift (np_dot dv (transpose_T W2v))) (\<lambda>g.
     seq (new g) (\<lambda>dh1.
     seq (rd dh1) (\<lambda>dhv.
     seq (lift (zero_where_nonpos dhv h1)) (\<lambda>g.
     seq (wr dh1 g) (\<lambda>_.
     seq (rd X) (\<lambda>Xv.
     seq (rd dh1) (\<lambda>dhv.
     seq (lift (np_dot (transpose_T Xv) dhv)) (\<lambda>g.
     seq (new g) (\<lambda>dW1.
     seq (rd dh1) (\<lambda>dhv.
     seq (new (np_sum_axis0 dhv)) (\<lambda>db1.
     seq (rd W2) (\<lambda>W2v.
     seq (rd dW2) (\<lambda>gv.
     seq (lift (inplace2 (+) gv (scale reg W2v))) (\<lambda>g.
     seq (wr dW2 g) (\<lambda>_.
     seq (rd W1) (\<lambda>W1v.
     seq (rd dW1) (\<lambda>gv.
     seq (lift (inplace2 (+) gv (scale reg W1v))) (\<lambda>g.
     seq (wr dW1 g) (\<lambda>_.
     ret (LossGrads loss [''W1'' \<mapsto> dW1, ''b1'' \<mapsto> db1, ''W2'' \<mapsto> dW2, ''b2'' \<mapsto> db2])
     )))))))))))))))))))))))))))))))))))))))))))))))))))))))))"

subsection \<open>predict\<close>

definition predict :: "TwoLayerNet \<Rightarrow> addr \<Rightarrow> nat list prog" where
  "predict self X =
     seq (rd X) (\<lambda>Xv.
     seq (getitem (params self) ''W1'') (\<lambda>W1.
     seq (rd W1) (\<lambda>W1v.
     seq (lift (np_dot Xv W1v)) (\<lambda>xw.
     seq (getitem (params self) ''b1'') (\<lambda>b1.
     seq (rd b1) (\<lambda>b1v.
     seq (lift (np_add xw b1v)) (\<lambda>pre.
     let h1 = ReLU pre in
     seq (getitem (params self) ''W2'') (\<lambda>W2.
     seq (rd W2) (\<lambda>W2v.
     seq (lift (np_dot h1 W2v)) (\<lambda>hw.
     seq (getitem (params self) ''b2'') (\<lambda>b2.
     seq (rd b2) (\<lambda>b2v.
     seq (lift (np_add hw b2v)) (\<lambda>scores.
     seq (lift (np_argmax_axis1 scores)) (\<lambda>y_pred.
     ret y_pred))))))))))))))"

subsection \<open>train\<close>

record train_result =
  loss_history :: "pyfloat list"
  train_acc_history :: "pyfloat list"
  val_acc_history :: "pyfloat list"

text \<open>A velocity starts as the Python float \<open>0.0\<close> and is an array from the first update
  on. Velocity arrays are fresh values that nothing mutates.\<close>

datatype velocity = VNum real | VArr ndarray

text \<open>\<open>mu * v - learning_rate * g\<close>\<close>

definition momentum_step :: "real \<Rightarrow> velocity \<Rightarrow> real \<Rightarrow> ndarray \<Rightarrow> error + ndarray" where
  "momentum_step mu v learning_rate g =
     (case v of
        VNum x \<Rightarrow> Inr (mk (nrows g) (ncols g) (\<lambda>i j. mu * x - learning_rate * elt g i j))
      | VArr V \<Rightarrow> np_sub (scale mu V) (scale learning_rate g))"

record loop_state =
  net :: TwoLayerNet
  v_W2 :: velocity
  v_b2 :: velocity
  v_W1 :: velocity
  v_b1 :: velocity
  learning_rate :: real
  mu :: real
  hist :: train_result

text \<open>\<open>v = mu * v - learning_rate * grads[k]; self.params[k] += v\<close>: the in-place sum is
  written into the parameter's own buffer and the dictionary entry is bound again to
  the same array.\<close>

definition update_param ::
    "string \<Rightarrow> real \<Rightarrow> real \<Rightarrow> (string \<rightharpoonup> addr) \<Rightarrow> TwoLayerNet \<Rightarrow> velocity
      \<Rightarrow> (TwoLayerNet \<times> velocity) prog" where
  "update_param k m lrate grads self v =
     seq (getitem grads k) (\<lambda>g.
     seq (rd g) (\<lambda>gv.
     seq (lift (momentum_step m v lrate gv)) (\<lambda>v'.
     seq (getitem (params self) k) (\<lambda>p.
     seq (rd p) (\<lambda>pv.
     seq (lift (inplace2 (+) pv v')) (\<lambda>r.
     seq (wr p r) (\<lambda>_.
     ret (self\<lparr>params := (params self)(k \<mapsto> p)\<rparr>, VArr v'))))))))"

text \<open>\<open>(y_pred == y).mean()\<close>: the fraction of equal entries; the mean of an empty array
  is nan, and arrays that cannot be broadcast compare to a single \<open>False\<close>, which has
  no \<open>mean\<close>.\<close>

definition accuracy :: "nat list \<Rightarrow> int list \<Rightarrow> error + pyfloat" where
  "accuracy p y =
     (case bshape (length p) (length y) of
        None \<Rightarrow> Inl AttributeError
      | Some L \<Rightarrow>
          (let hits = filter (\<lambda>k. int (p ! (if length p = 1 then 0 else k))
                                   = y ! (if length y = 1 then 0 else k)) [0..<L]
           in Inr (if L = 0 then NaN else Fin (real (length hits) / real L))))"

text \<open>Lines 162 to 170: the four parameter updates of one iteration, in the order of the
  source, each with the current \<open>mu\<close> and \<open>learning_rate\<close>.\<close>

definition param_updates :: "(string \<rightharpoonup> addr) \<Rightarrow> loop_state \<Rightarrow> loop_state prog" where
  "param_updates grads s =
     seq (update_param ''W2'' (mu s) (learning_rate s) grads (net s) (v_W2 s)) (\<lambda>(n, v).
     let s = s\<lparr>net := n, v_W2 := v\<rparr> in
     seq (update_param ''b2'' (mu s) (learning_rate s) grads (net s) (v_b2 s)) (\<lambda>(n, v).
     let s = s\<lparr>net := n, v_b2 := v\<rparr> in
     seq (update_param ''W1'' (mu s) (learning_rate s) grads (net s) (v_W1 s)) (\<lambda>(n, v).
     let s = s\<lparr>net := n, v_W1 := v\<rparr> in
     seq (update_param ''b1'' (mu s) (learning_rate s) grads (net s) (v_b1 s)) (\<lambda>(n, v).
     ret (s\<lparr>net := n, v_b1 := v\<rparr>)))))"

text \<open>Lines 175 to 188: the block at the end of an epoch; printing is not modelled.\<close>

definition epoch_end ::
    "addr \<Rightarrow> int list \<Rightarrow> addr \<Rightarrow> int list \<Rightarrow> real \<Rightarrow> real \<Rightarrow> bool \<Rightarrow> int \<Rightarrow> int \<Rightarrow> loop_state
      \<Rightarrow> loop_state prog" where
  "epoch_end X_batch y_batch X_val y_val learning_rate_decay mu_increase verbose
       iterations_per_epoch it s =
     (if verbose \<and> it mod iterations_per_epoch = 0 then
        seq (predict (net s) X_batch) (\<lambda>p1.
        seq (lift (accuracy p1 y_batch)) (\<lambda>train_acc.
        seq (predict (net s) X_val) (\<lambda>p2.
        seq (lift (accuracy p2 y_val)) (\<lambda>val_acc.
        ret (s\<lparr>hist := (hist s)\<lparr>train_acc_history := train_acc_history (hist s) @ [train_acc],
                                    val_acc_history := val_acc_history (hist s) @ [val_acc]\<rparr>,
                 learning_rate := learning_rate s * learning_rate_decay,
                 mu := mu s * mu_increase\<rparr>)))))
      else ret s)"

text \<open>The body of the loop for iteration \<open>it\<close>.\<close>

definition train_iter ::
    "(nat \<Rightarrow> nat \<Rightarrow> nat) \<Rightarrow> addr \<Rightarrow> int list \<Rightarrow> addr \<Rightarrow> int list \<Rightarrow> real \<Rightarrow> real \<Rightarrow> real
      \<Rightarrow> int \<Rightarrow> bool \<Rightarrow> nat \<Rightarrow> int \<Rightarrow> int \<Rightarrow> loop_state \<Rightarrow> loop_state prog" where
  "train_iter draws X y X_val y_val learning_rate_decay reg mu_increase batch_size verbose
       num_train iterations_per_epoch it s =
     seq (lift (np_random_choice (draws (nat it)) num_train batch_size)) (\<lambda>sample_index.
     seq (rd X) (\<lambda>Xv.
     seq (lift (take_rows Xv sample_index)) (\<lambda>xb.
     seq (new xb) (\<lambda>X_batch.
     seq (lift (take_labels y sample_index)) (\<lambda>y_batch.
     seq (loss (net s) X_batch (Some y_batch) reg) (\<lambda>r.
     case r of
       Scores _ \<Rightarrow> raise ValueError
     | LossGrads l grads \<Rightarrow>
     let s = s\<lparr>hist := (hist s)\<lparr>loss_history := loss_history (hist s) @ [l]\<rparr>\<rparr> in
     seq (param_updates grads s) (\<lambda>s.
     epoch_end X_batch y_batch X_val y_val learning_rate_decay mu_increase verbose
       iterations_per_epoch it s)))))))"

fun for_loop :: "(int \<Rightarrow> 's \<Rightarrow> 's prog) \<Rightarrow> int list \<Rightarrow> 's \<Rightarrow> 's prog" where
  "for_loop body [] s = ret s"
| "for_loop body (it # its) s = seq (body it s) (for_loop body its)"

text \<open>\<open>train_locals\<close> runs \<open>train\<close> up to its \<open>return\<close> and gives the local variables
  there; \<open>train\<close> returns the object after the call and the dictionary of histories.\<close>

definition train_locals ::
    "(nat \<Rightarrow> nat \<Rightarrow> nat) \<Rightarrow> TwoLayerNet \<Rightarrow> addr \<Rightarrow> int list \<Rightarrow> addr \<Rightarrow> int list \<Rightarrow> real \<Rightarrow> real
      \<Rightarrow> real \<Rightarrow> real \<Rightarrow> int \<Rightarrow> real \<Rightarrow> int \<Rightarrow> bool \<Rightarrow> loop_state prog" where
  "train_locals draws self X y X_val y_val lrate learning_rate_decay reg m num_epochs
       mu_increase batch_size verbose =
     seq (rd X) (\<lambda>Xv.
     let num_train = nrows Xv in
     if batch_size = 0 then raise ZeroDivisionError
     else
       let iterations_per_epoch = max (int num_train div batch_size) 1;
           s0 = \<lparr>net = self, v_W2 = VNum 0, v_b2 = VNum 0, v_W1 = VNum 0, v_b1 = VNum 0,
                 learning_rate = lrate, mu = m,
                 hist = \<lparr>loss_history = [], train_acc_history = [], val_acc_history = []\<rparr>\<rparr>
       in for_loop (train_iter draws X y X_val y_val learning_rate_decay reg mu_increase
                      batch_size verbose num_train iterations_per_epoch)
            [1..num_epochs * iterations_per_epoch] s0)"

definition train ::
    "(nat \<Rightarrow> nat \<Rightarrow> nat) \<Rightarrow> TwoLayerNet \<Rightarrow> addr \<Rightarrow> int list \<Rightarrow> addr \<Rightarrow> int list \<Rightarrow> real \<Rightarrow> real
      \<Rightarrow> real \<Rightarrow> real \<Rightarrow> int \<Rightarrow> real \<Rightarrow> int \<Rightarrow> bool \<Rightarrow> (TwoLayerNet \<times> train_result) prog" where
  "train draws self X y X_val y_val lrate learning_rate_decay reg m num_epochs
       mu_increase batch_size verbose =
     seq (train_locals draws self X y X_val y_val lrate learning_rate_decay reg m num_epochs
            mu_increase batch_size verbose)
       (\<lambda>s. ret (net s, hist s))"

section \<open>The formulas of the specification\<close>

text \<open>
  The network as the specification words it, entry by entry: \<open>scores = ReLU(X W1 + b1) W2 + b2\<close>,
  the softmax of a row of scores (no maximum subtracted), the mean cross-entropy with the
  L2 penalty, and the gradients of standard two-layer backpropagation. These are
  mathematical definitions; the theorems below compare them with what \<open>loss\<close> computes.
\<close>

definition spec_hidden_pre :: "ndarray \<Rightarrow> ndarray \<Rightarrow> ndarray \<Rightarrow> nat \<Rightarrow> nat \<Rightarrow> real" where
  "spec_hidden_pre Xm W1m b1m n i = (\<Sum>d<ncols Xm. elt Xm n d * elt W1m d i) + elt b1m 0 i"

definition spec_hidden :: "ndarray \<Rightarrow> ndarray \<Rightarrow> ndarray \<Rightarrow> nat \<Rightarrow> nat \<Rightarrow> real" where
  "spec_hidden Xm W1m b1m n i = max 0 (spec_hidden_pre Xm W1m b1m n i)"

definition spec_scores ::
    "ndarray \<Rightarrow> ndarray \<Rightarrow> ndarray \<Rightarrow> ndarray \<Rightarrow> ndarray \<Rightarrow> nat \<Rightarrow> nat \<Rightarrow> real" where
  "spec_scores Xm W1m b1m W2m b2m n c =
     (\<Sum>i<ncols W1m. spec_hidden Xm W1m b1m n i * elt W2m i c) + elt b2m 0 c"

definition softmax :: "nat \<Rightarrow> (nat \<Rightarrow> real) \<Rightarrow> nat \<Rightarrow> real" where
  "softmax C s c = exp (s c) / (\<Sum>k<C. exp (s k))"

definition sum_squares :: "ndarray \<Rightarrow> real" where
  "sum_squares A = (\<Sum>i<nrows A. \<Sum>j<ncols A. (elt A i j)\<^sup>2)"

definition spec_loss ::
    "ndarray \<Rightarrow> int list \<Rightarrow> ndarray \<Rightarrow> ndarray \<Rightarrow> ndarray \<Rightarrow> ndarray \<Rightarrow> real \<Rightarrow> real" where
  "spec_loss Xm y W1m b1m W2m b2m reg =
     (1 / real (nrows Xm)) *
       (\<Sum>n<nrows Xm. - ln (softmax (ncols W2m) (spec_scores Xm W1m b1m W2m b2m n) (nat (y ! n))))
     + 0.5 * reg * sum_squares W1m + 0.5 * reg * sum_squares W2m"






text \<open>Well-shaped inputs: the four parameters are arrays of the store of shapes
  \<open>D \<times> H\<close>, \<open>1 \<times> H\<close>, \<open>H \<times> C\<close>, \<open>1 \<times> C\<close>; the batch is an \<open>N \<times> D\<close> array of the store with
  \<open>N\<close> labels in \<open>[0, C)\<close>.\<close>

definition labels_ok :: "int list \<Rightarrow> nat \<Rightarrow> bool" where
  "labels_ok y C = list_all (\<lambda>v. 0 \<le> v \<and> v < int C) y"

definition has_param :: "TwoLayerNet \<Rightarrow> heap \<Rightarrow> string \<Rightarrow> nat \<Rightarrow> nat \<Rightarrow> bool" where
  "has_param self h k r c =
     (case params self k of
        None \<Rightarrow> False
      | Some a \<Rightarrow> a < length h \<and> nrows (h ! a) = r \<and> ncols (h ! a) = c)"

definition net_shape :: "TwoLayerNet \<Rightarrow> heap \<Rightarrow> nat \<Rightarrow> nat \<Rightarrow> nat \<Rightarrow> bool" where
  "net_shape self h D H C =
     (has_param self h ''W1'' D H \<and> has_param self h ''b1'' 1 H \<and>
      has_param self h ''W2'' H C \<and> has_param self h ''b2'' 1 C)"

definition param :: "TwoLayerNet \<Rightarrow> heap \<Rightarrow> string \<Rightarrow> ndarray" where
  "param self h k = h ! the (params self k)"

definition batch_ok :: "heap \<Rightarrow> addr \<Rightarrow> int list \<Rightarrow> nat \<Rightarrow> nat \<Rightarrow> nat \<Rightarrow> bool" where
  "batch_ok h X y N D C =
     (X < length h \<and> nrows (h ! X) = N \<and> ncols (h ! X) = D \<and> length y = N \<and> labels_ok y C)"




section \<open>Properties\<close>

subsection \<open>Arrays built by mk\<close>

lemma nrows_mk [simp]: "nrows (mk r c f) = r" by (simp add: mk_def)
lemma ncols_mk [simp]: "ncols (mk r c f) = c" by (simp add: mk_def)
lemma elt_mk [simp]: "i < r \<Longrightarrow> j < c \<Longrightarrow> elt (mk r c f) i j = f i j"
  by (simp add: mk_def elt_def)
lemma wf_array_mk [simp]: "wf_array (mk r c f)"
  by (simp add: wf_array_def mk_def list_all_iff)

lemma mk_cong: "(\<And>i j. i < r \<Longrightarrow> j < c \<Longrightarrow> f i j = g i j) \<Longrightarrow> mk r c f = mk r c g"
  by (simp add: mk_def)

subsection \<open>Values of the array operations when they succeed\<close>

definition dotv :: "ndarray \<Rightarrow> ndarray \<Rightarrow> ndarray" where
  "dotv A B = mk (nrows A) (ncols B) (\<lambda>i j. \<Sum>k\<leftarrow>[0..<ncols A]. elt A i k * elt B k j)"

definition bcl :: "(real \<Rightarrow> real \<Rightarrow> real) \<Rightarrow> ndarray \<Rightarrow> ndarray \<Rightarrow> ndarray" where
  "bcl f A B = mk (nrows A) (ncols A) (\<lambda>i j. f (belt A i j) (belt B i j))"

definition rowmax :: "ndarray \<Rightarrow> ndarray" where
  "rowmax A = mk (nrows A) 1 (\<lambda>i j. Max (set (map (elt A i) [0..<ncols A])))"

definition maskv :: "ndarray \<Rightarrow> ndarray \<Rightarrow> ndarray" where
  "maskv A M = mk (nrows A) (ncols A) (\<lambda>i j. if elt M i j \<le> 0 then 0 else elt A i j)"

lemma shape_simps [simp]:
  "nrows (dotv A B) = nrows A" "ncols (dotv A B) = ncols B"
  "nrows (bcl f A B) = nrows A" "ncols (bcl f A B) = ncols A"
  "nrows (rowmax A) = nrows A" "ncols (rowmax A) = 1"
  "nrows (maskv A M) = nrows A" "ncols (maskv A M) = ncols A"
  "nrows (scale c A) = nrows A" "ncols (scale c A) = ncols A"
  "nrows (divide_by A c) = nrows A" "ncols (divide_by A c) = ncols A"
  "nrows (transpose_T A) = ncols A" "ncols (transpose_T A) = nrows A"
  "nrows (np_exp A) = nrows A" "ncols (np_exp A) = ncols A"
  "nrows (ReLU A) = nrows A" "ncols (ReLU A) = ncols A"
  "nrows (np_sum_axis1 A) = nrows A" "ncols (np_sum_axis1 A) = 1"
  "nrows (np_sum_axis0 A) = 1" "ncols (np_sum_axis0 A) = ncols A"
  "nrows (sub_at_positions A ps c) = nrows A" "ncols (sub_at_positions A ps c) = ncols A"
  by (simp_all add: dotv_def bcl_def rowmax_def maskv_def scale_def divide_by_def
      transpose_T_def np_exp_def ReLU_def np_sum_axis1_def np_sum_axis0_def sub_at_positions_def)

lemma bshape_same [simp]: "bshape m m = Some m" by (simp add: bshape_def)
lemma bshape_one [simp]: "bshape m (Suc 0) = Some m" by (simp add: bshape_def)

lemma np_dot_ok: "ncols A = nrows B \<Longrightarrow> np_dot A B = Inr (dotv A B)"
  by (simp add: np_dot_def dotv_def)

lemma broadcast2_ok:
  "bshape (nrows A) (nrows B) = Some (nrows A) \<Longrightarrow> bshape (ncols A) (ncols B) = Some (ncols A)
   \<Longrightarrow> broadcast2 f A B = Inr (bcl f A B)"
  by (simp add: broadcast2_def bcl_def)

lemma inplace2_ok:
  "bshape (nrows A) (nrows B) = Some (nrows A) \<Longrightarrow> bshape (ncols A) (ncols B) = Some (ncols A)
   \<Longrightarrow> inplace2 f A B = Inr (bcl f A B)"
  by (simp add: inplace2_def broadcast2_ok)

lemma np_max_axis1_ok: "0 < ncols A \<Longrightarrow> np_max_axis1 A = Inr (rowmax A)"
  by (simp add: np_max_axis1_def rowmax_def)

lemma zero_where_nonpos_ok:
  "nrows M = nrows A \<Longrightarrow> ncols M = ncols A \<Longrightarrow> zero_where_nonpos A M = Inr (maskv A M)"
  by (simp add: zero_where_nonpos_def maskv_def)

definition label_positions :: "int list \<Rightarrow> (nat \<times> nat) list" where
  "label_positions y = map (\<lambda>k. (k, nat (y ! k))) [0..<length y]"

lemma labels_okD: "labels_ok y C \<Longrightarrow> k < length y \<Longrightarrow> 0 \<le> y ! k \<and> y ! k < int C"
  by (simp add: labels_ok_def list_all_length)

lemma fancy_positions_ok:
  assumes "nrows A = length y" "labels_ok y (ncols A)"
  shows "fancy_positions A (length y) y = Inr (label_positions y)"
proof -
  let ?N = "length y"
  let ?rs = "map (\<lambda>k. if ?N = 1 then 0 else k) [0..<?N]"
  let ?cs = "map (\<lambda>k. norm_index (ncols A) (y ! (if ?N = 1 then 0 else k))) [0..<?N]"
  have rs: "?rs = [0..<?N]"
    by (rule nth_equalityI) auto
  have cs: "?cs = map (\<lambda>k. Some (nat (y ! k))) [0..<?N]"
    using labels_okD[OF assms(2)] by (intro nth_equalityI) (auto simp: norm_index_def)
  have z: "zip ?rs (map the ?cs) = label_positions y"
    unfolding rs cs label_positions_def by (rule nth_equalityI) auto
  have ok: "list_all (\<lambda>r. r < nrows A) ?rs \<and> list_all (\<lambda>c. c \<noteq> None) ?cs"
    unfolding rs cs using assms(1) by (simp add: list_all_iff)
  have "fancy_positions A ?N y =
          (if list_all (\<lambda>r. r < nrows A) ?rs \<and> list_all (\<lambda>c. c \<noteq> None) ?cs
           then Inr (zip ?rs (map the ?cs)) else Inl IndexError)"
    unfolding fancy_positions_def Let_def by (simp only: bshape_same option.case)
  then show ?thesis using ok z by simp
qed

subsection \<open>Programs\<close>

lemma ret_apply [simp]: "ret x h = (Inr x, h)" by (simp add: ret_def)
lemma raise_apply [simp]: "raise e h = (Inl e, h)" by (simp add: raise_def)
lemma seq_ret [simp]: "seq (ret x) f = f x" by (simp add: seq_def ret_def)
lemma seq_raise [simp]: "seq (raise e) f = raise e" by (auto simp add: seq_def raise_def)
lemma seq_assoc [simp]: "seq (seq m f) g = seq m (\<lambda>x. seq (f x) g)"
  by (auto simp add: seq_def fun_eq_iff split: prod.splits sum.splits)
lemma lift_Inr [simp]: "lift (Inr x) = ret x" by (simp add: lift_def)
lemma lift_Inl [simp]: "lift (Inl e) = raise e" by (simp add: lift_def)
lemma seq_new [simp]: "seq (new v) f h = f (length h) (h @ [v])" by (simp add: seq_def new_def)
lemma seq_rd [simp]: "a < length h \<Longrightarrow> seq (rd a) f h = f (h ! a) h" by (simp add: seq_def rd_def)
lemma seq_wr [simp]: "a < length h \<Longrightarrow> seq (wr a v) f h = f () (h[a := v])" by (simp add: seq_def wr_def)
lemma getitem_Some [simp]: "d k = Some v \<Longrightarrow> getitem d k = ret v" by (simp add: getitem_def)
lemma getitem_None [simp]: "d k = None \<Longrightarrow> getitem d k = raise KeyError" by (simp add: getitem_def)

subsection \<open>What a program leaves of the store\<close>

text \<open>\<open>pres n m\<close>: whatever the outcome of \<open>m\<close> (a result or an exception), the store keeps
  its first \<open>n\<close> arrays as they were.\<close>

definition pres :: "nat \<Rightarrow> 'a prog \<Rightarrow> bool" where
  "pres n m = (\<forall>h. n \<le> length h \<longrightarrow> n \<le> length (snd (m h)) \<and> take n (snd (m h)) = take n h)"

lemma pres_ret: "pres n (ret x)" by (simp add: pres_def)
lemma pres_raise: "pres n (raise e)" by (simp add: pres_def)
lemma pres_lift: "pres n (lift r)" by (cases r) (simp_all add: pres_ret pres_raise)
lemma pres_getitem: "pres n (getitem d k)" by (cases "d k") (simp_all add: pres_ret pres_raise)
lemma pres_rd: "pres n (rd a)" by (simp add: pres_def rd_def)
lemma pres_wr: "n \<le> a \<Longrightarrow> pres n (wr a v)" by (simp add: pres_def wr_def)

lemma pres_seq:
  assumes "pres n m" "\<And>x. pres n (f x)"
  shows "pres n (seq m f)"
  unfolding pres_def
proof (intro allI impI)
  fix h :: heap
  assume n: "n \<le> length h"
  obtain r h' where mh: "m h = (r, h')" by (cases "m h")
  from assms(1) n mh have 1: "n \<le> length h'" "take n h' = take n h"
    by (auto simp: pres_def dest!: spec[of _ h])
  show "n \<le> length (snd (seq m f h)) \<and> take n (snd (seq m f h)) = take n h"
  proof (cases r)
    case (Inl e)
    with mh 1 show ?thesis by (simp add: seq_def)
  next
    case (Inr x)
    from assms(2)[of x] 1(1) have "n \<le> length (snd (f x h')) \<and> take n (snd (f x h')) = take n h'"
      by (simp add: pres_def)
    with mh Inr 1 show ?thesis by (simp add: seq_def)
  qed
qed

lemma pres_new_seq: "(\<And>a. n \<le> a \<Longrightarrow> pres n (f a)) \<Longrightarrow> pres n (seq (new v) f)"
  unfolding pres_def by auto

lemma pres_case_option:
  "pres n a \<Longrightarrow> (\<And>v. pres n (b v)) \<Longrightarrow> pres n (case y of None \<Rightarrow> a | Some v \<Rightarrow> b v)"
  by (cases y) simp_all

lemma pres_loss: "pres n (loss self X y reg)"
  unfolding loss_def Let_def
  by (intro pres_new_seq pres_seq pres_case_option pres_ret pres_lift pres_getitem pres_rd
        pres_wr; assumption)

text \<open>
  C10. A call of \<open>loss\<close>, with labels or without, returning or raising, leaves every array
  that existed before the call as it was: the store after the call is the store before it
  followed by the arrays the call allocated. In particular the four parameter arrays
  hold the values they held before; the in-place updates of the backward pass
  (\<open>dscores[range(N), y] -= 1\<close>, \<open>dscores /= N\<close>, \<open>dh1[h1 <= 0] = 0\<close>, \<open>dW2 += reg * W2\<close>,
  \<open>dW1 += reg * W1\<close>) write to arrays allocated by the call itself. The dictionary
  \<open>self.params\<close> is only read.
\<close>

theorem loss_leaves_parameters:
  "length h \<le> length (snd (loss self X y reg h)) \<and>
   take (length h) (snd (loss self X y reg h)) = h"
  using pres_loss[of "length h" self X y reg] by (simp add: pres_def)

subsection \<open>train with no epochs\<close>



subsection \<open>The value of loss\<close>

definition hidden_v :: "ndarray \<Rightarrow> ndarray \<Rightarrow> ndarray \<Rightarrow> ndarray" where
  "hidden_v Xv W1v b1v = ReLU (bcl (+) (dotv Xv W1v) b1v)"

definition scores_v :: "ndarray \<Rightarrow> ndarray \<Rightarrow> ndarray \<Rightarrow> ndarray" where
  "scores_v hv W2v b2v = bcl (+) (dotv hv W2v) b2v"

definition probs_v :: "ndarray \<Rightarrow> ndarray" where
  "probs_v S = bcl (/) (np_exp (bcl (-) S (rowmax S))) (np_sum_axis1 (np_exp (bcl (-) S (rowmax S))))"

definition dscores_v :: "ndarray \<Rightarrow> int list \<Rightarrow> ndarray" where
  "dscores_v P y = divide_by (sub_at_positions P (label_positions y) 1) (real (length y))"

definition dhidden_v :: "ndarray \<Rightarrow> ndarray \<Rightarrow> ndarray \<Rightarrow> ndarray" where
  "dhidden_v dS W2v hv = maskv (dotv dS (transpose_T W2v)) hv"

lemma shape_simps2 [simp]:
  "nrows (hidden_v Xv W1v b1v) = nrows Xv" "ncols (hidden_v Xv W1v b1v) = ncols W1v"
  "nrows (scores_v hv W2v b2v) = nrows hv" "ncols (scores_v hv W2v b2v) = ncols W2v"
  "nrows (probs_v S) = nrows S" "ncols (probs_v S) = ncols S"
  "nrows (dscores_v P y) = nrows P" "ncols (dscores_v P y) = ncols P"
  "nrows (dhidden_v dS W2v hv) = nrows dS" "ncols (dhidden_v dS W2v hv) = nrows W2v"
  by (simp_all add: hidden_v_def scores_v_def probs_v_def dscores_v_def dhidden_v_def)

lemma belt_self: "i < nrows A \<Longrightarrow> j < ncols A \<Longrightarrow> belt A i j = elt A i j"
  by (auto simp: belt_def)
lemma belt_row: "nrows B = 1 \<Longrightarrow> j < ncols B \<Longrightarrow> belt B i j = elt B 0 j"
  by (auto simp: belt_def)
lemma belt_col: "ncols B = 1 \<Longrightarrow> i < nrows B \<Longrightarrow> belt B i j = elt B i 0"
  by (auto simp: belt_def)

lemma sum_list_upt: "(\<Sum>k\<leftarrow>[0..<n]. f k) = (\<Sum>k<n. f k)"
  by (simp add: interv_sum_list_conv_sum_set_nat atLeast0LessThan)

lemma elt_dotv: "i < nrows A \<Longrightarrow> j < ncols B \<Longrightarrow> elt (dotv A B) i j = (\<Sum>k<ncols A. elt A i k * elt B k j)"
  by (simp add: dotv_def sum_list_upt)

lemma elt_bcl: "i < nrows A \<Longrightarrow> j < ncols A \<Longrightarrow> elt (bcl f A B) i j = f (elt A i j) (belt B i j)"
  by (simp add: bcl_def belt_self)

lemma elt_hidden_v:
  assumes "n < nrows Xv" "i < ncols W1v" "nrows b1v = 1" "ncols b1v = ncols W1v"
  shows "elt (hidden_v Xv W1v b1v) n i = spec_hidden Xv W1v b1v n i"
  using assms
  by (simp add: hidden_v_def ReLU_def elt_bcl elt_dotv belt_row spec_hidden_def spec_hidden_pre_def)

lemma elt_scores_v:
  assumes "n < nrows Xv" "c < ncols W2v" "nrows b1v = 1" "ncols b1v = ncols W1v"
          "nrows b2v = 1" "ncols b2v = ncols W2v"
  shows "elt (scores_v (hidden_v Xv W1v b1v) W2v b2v) n c = spec_scores Xv W1v b1v W2v b2v n c"
  using assms
  by (simp add: scores_v_def elt_bcl elt_dotv belt_row elt_hidden_v spec_scores_def)

lemma softmax_shift: "softmax C (\<lambda>k. s k - m) c = softmax C s c"
proof -
  have "(\<Sum>k<C. exp (s k - m)) = (\<Sum>k<C. exp (s k)) / exp m"
    by (simp add: exp_diff sum_divide_distrib)
  then show ?thesis by (simp add: softmax_def exp_diff)
qed

lemma elt_probs_v:
  assumes "n < nrows S" "c < ncols S"
  shows "elt (probs_v S) n c = softmax (ncols S) (elt S n) c"
proof -
  let ?m = "elt (rowmax S) n 0"
  let ?E = "np_exp (bcl (-) S (rowmax S))"
  have E: "elt ?E n k = exp (elt S n k - ?m)" if "k < ncols S" for k
    using assms that by (simp add: np_exp_def elt_bcl belt_col)
  have "elt (probs_v S) n c = elt ?E n c / (\<Sum>k<ncols S. elt ?E n k)"
    using assms by (simp add: probs_v_def elt_bcl belt_col np_sum_axis1_def sum_list_upt)
  also have "\<dots> = softmax (ncols S) (\<lambda>k. elt S n k - ?m) c"
    using assms by (simp add: E softmax_def)
  finally show ?thesis by (simp add: softmax_shift)
qed

lemma take_label_positions:
  "take_positions P (label_positions y) = map (\<lambda>n. elt P n (nat (y ! n))) [0..<length y]"
  by (simp add: take_positions_def label_positions_def)

lemma np_sum_squares: "np_sum (bcl (*) A A) = sum_squares A"
proof -
  have row: "(\<Sum>j\<leftarrow>[0..<ncols A]. elt (bcl (*) A A) i j) = (\<Sum>j<ncols A. (elt A i j)\<^sup>2)"
    if "i < nrows A" for i
    unfolding sum_list_upt using that
    by (intro sum.cong) (simp_all add: elt_bcl belt_self power2_eq_square)
  have "np_sum (bcl (*) A A) = (\<Sum>i<nrows A. \<Sum>j\<leftarrow>[0..<ncols A]. elt (bcl (*) A A) i j)"
    by (simp add: np_sum_def sum_list_upt)
  also have "\<dots> = (\<Sum>i<nrows A. \<Sum>j<ncols A. (elt A i j)\<^sup>2)"
    by (rule sum.cong) (simp_all add: row)
  finally show ?thesis by (simp add: sum_squares_def)
qed

lemma has_paramD:
  assumes "has_param self h k r c"
  obtains a where "params self k = Some a" "a < length h" "nrows (h ! a) = r" "ncols (h ! a) = c"
    "param self h k = h ! a"
  using assms by (auto simp: has_param_def param_def split: option.splits)

lemma loss_exec:
  assumes net: "net_shape self h D H C" and b: "batch_ok h X y N D C" and N: "0 < N"
  defines "hv \<equiv> hidden_v (h ! X) (param self h ''W1'') (param self h ''b1'')"
  defines "S \<equiv> scores_v hv (param self h ''W2'') (param self h ''b2'')"
  defines "dS \<equiv> dscores_v (probs_v S) y"
  defines "dH \<equiv> dhidden_v dS (param self h ''W2'') hv"
  shows "loss self X (Some y) reg h =
     (Inr (LossGrads
        (Fin (sum_list (map (\<lambda>p. - ln p) (take_positions (probs_v S) (label_positions y))) / real N
              + (0.5 * reg * np_sum (bcl (*) (param self h ''W1'') (param self h ''W1''))
                 + 0.5 * reg * np_sum (bcl (*) (param self h ''W2'') (param self h ''W2'')))))
        [''W1'' \<mapsto> length h + 5, ''b1'' \<mapsto> length h + 6,
         ''W2'' \<mapsto> length h + 2, ''b2'' \<mapsto> length h + 3]),
      h @ [S, dS, bcl (+) (dotv (transpose_T hv) dS) (scale reg (param self h ''W2'')),
           np_sum_axis0 dS, dH,
           bcl (+) (dotv (transpose_T (h ! X)) dH) (scale reg (param self h ''W1'')),
           np_sum_axis0 dH])"
proof -
  from net obtain aW1 ab1 aW2 ab2 where
    p: "params self ''W1'' = Some aW1" "params self ''b1'' = Some ab1"
       "params self ''W2'' = Some aW2" "params self ''b2'' = Some ab2"
    and a: "aW1 < length h" "ab1 < length h" "aW2 < length h" "ab2 < length h"
    and s: "nrows (h ! aW1) = D" "ncols (h ! aW1) = H" "nrows (h ! ab1) = 1" "ncols (h ! ab1) = H"
           "nrows (h ! aW2) = H" "ncols (h ! aW2) = C" "nrows (h ! ab2) = 1" "ncols (h ! ab2) = C"
    and q: "param self h ''W1'' = h ! aW1" "param self h ''b1'' = h ! ab1"
           "param self h ''W2'' = h ! aW2" "param self h ''b2'' = h ! ab2"
    unfolding net_shape_def by (elim conjE has_paramD) blast
  from b have x: "X < length h" "nrows (h ! X) = length y" "ncols (h ! X) = D" "labels_ok y C"
    and Ny: "N = length y"
    by (auto simp: batch_ok_def)
  have C: "0 < C" using x(4) N Ny by (cases y) (auto simp: labels_ok_def)
  show ?thesis
    unfolding loss_def Let_def q hv_def S_def dS_def dH_def
    using p a s x N C unfolding Ny
    by (simp add: np_dot_ok np_add_def np_sub_def np_div_def np_mul_def broadcast2_ok inplace2_ok
        np_max_axis1_ok zero_where_nonpos_ok fancy_positions_ok nth_append
        mean_over_def fadd_def eval_nat_numeral list_update_append
        hidden_v_def scores_v_def probs_v_def dscores_v_def dhidden_v_def)
qed

lemma softmax_cong: "(\<And>k. k < C \<Longrightarrow> s k = t k) \<Longrightarrow> c < C \<Longrightarrow> softmax C s c = softmax C t c"
  by (simp add: softmax_def)




lemma data_loss_eq:
  assumes net: "net_shape self h D H C" and b: "batch_ok h X y N D C"
  shows "sum_list (map (\<lambda>p. - ln p)
           (take_positions (probs_v (scores_v (hidden_v (h ! X) (param self h ''W1'') (param self h ''b1''))
               (param self h ''W2'') (param self h ''b2''))) (label_positions y)))
       = (\<Sum>n<N. - ln (softmax C (spec_scores (h ! X) (param self h ''W1'') (param self h ''b1'')
               (param self h ''W2'') (param self h ''b2'') n) (nat (y ! n))))"
proof -
  from net have s: "nrows (param self h ''b1'') = 1" "ncols (param self h ''b1'') = ncols (param self h ''W1'')"
     "nrows (param self h ''b2'') = 1" "ncols (param self h ''b2'') = ncols (param self h ''W2'')"
     "ncols (param self h ''W2'') = C"
    unfolding net_shape_def by (auto elim!: has_paramD)
  from b have x: "nrows (h ! X) = N" "length y = N" "labels_ok y C" by (auto simp: batch_ok_def)
  let ?S = "scores_v (hidden_v (h ! X) (param self h ''W1'') (param self h ''b1''))
               (param self h ''W2'') (param self h ''b2'')"
  have "elt (probs_v ?S) n (nat (y ! n)) = softmax C (spec_scores (h ! X) (param self h ''W1'')
          (param self h ''b1'') (param self h ''W2'') (param self h ''b2'') n) (nat (y ! n))"
    if n: "n < N" for n
  proof -
    have c: "nat (y ! n) < C" using labels_okD[OF x(3), of n] n x(2) by auto
    have sc: "elt ?S n k = spec_scores (h ! X) (param self h ''W1'')
          (param self h ''b1'') (param self h ''W2'') (param self h ''b2'') n k" if "k < C" for k
      using elt_scores_v[of n "h ! X" k "param self h ''W2''" "param self h ''b1''"
          "param self h ''W1''" "param self h ''b2''"] n that x s by simp
    have "elt (probs_v ?S) n (nat (y ! n)) = softmax C (elt ?S n) (nat (y ! n))"
      using n c x s by (simp add: elt_probs_v)
    also have "\<dots> = softmax C (spec_scores (h ! X) (param self h ''W1'')
          (param self h ''b1'') (param self h ''W2'') (param self h ''b2'') n) (nat (y ! n))"
      using c by (intro softmax_cong) (simp_all add: sc)
    finally show ?thesis .
  qed
  then have "(\<Sum>n<N. - ln (elt (probs_v ?S) n (nat (y ! n)))) =
      (\<Sum>n<N. - ln (softmax C (spec_scores (h ! X) (param self h ''W1'')
          (param self h ''b1'') (param self h ''W2'') (param self h ''b2'') n) (nat (y ! n))))"
    by (intro sum.cong) simp_all
  then show ?thesis
    unfolding take_label_positions x(2) by (simp add: comp_def sum_list_upt)
qed












subsection \<open>The gradients\<close>





lemma elt_scale: "i < nrows A \<Longrightarrow> j < ncols A \<Longrightarrow> elt (scale c A) i j = c * elt A i j"
  by (simp add: scale_def)



definition shapes_ok ::
    "ndarray \<Rightarrow> int list \<Rightarrow> ndarray \<Rightarrow> ndarray \<Rightarrow> ndarray \<Rightarrow> ndarray \<Rightarrow> nat \<Rightarrow> nat \<Rightarrow> nat \<Rightarrow> nat \<Rightarrow> bool" where
  "shapes_ok Xm y W1m b1m W2m b2m N D H C =
     (nrows Xm = N \<and> ncols Xm = D \<and> length y = N \<and> labels_ok y C \<and>
      nrows W1m = D \<and> ncols W1m = H \<and> nrows b1m = 1 \<and> ncols b1m = H \<and>
      nrows W2m = H \<and> ncols W2m = C \<and> nrows b2m = 1 \<and> ncols b2m = C)"

definition S_of :: "ndarray \<Rightarrow> ndarray \<Rightarrow> ndarray \<Rightarrow> ndarray \<Rightarrow> ndarray \<Rightarrow> ndarray" where
  "S_of Xm W1m b1m W2m b2m = scores_v (hidden_v Xm W1m b1m) W2m b2m"

definition dS_of :: "ndarray \<Rightarrow> int list \<Rightarrow> ndarray \<Rightarrow> ndarray \<Rightarrow> ndarray \<Rightarrow> ndarray \<Rightarrow> ndarray" where
  "dS_of Xm y W1m b1m W2m b2m = dscores_v (probs_v (S_of Xm W1m b1m W2m b2m)) y"

definition dH_of :: "ndarray \<Rightarrow> int list \<Rightarrow> ndarray \<Rightarrow> ndarray \<Rightarrow> ndarray \<Rightarrow> ndarray \<Rightarrow> ndarray" where
  "dH_of Xm y W1m b1m W2m b2m = dhidden_v (dS_of Xm y W1m b1m W2m b2m) W2m (hidden_v Xm W1m b1m)"

definition gW2_of ::
    "ndarray \<Rightarrow> int list \<Rightarrow> ndarray \<Rightarrow> ndarray \<Rightarrow> ndarray \<Rightarrow> ndarray \<Rightarrow> real \<Rightarrow> ndarray" where
  "gW2_of Xm y W1m b1m W2m b2m reg =
     bcl (+) (dotv (transpose_T (hidden_v Xm W1m b1m)) (dS_of Xm y W1m b1m W2m b2m)) (scale reg W2m)"

definition gW1_of ::
    "ndarray \<Rightarrow> int list \<Rightarrow> ndarray \<Rightarrow> ndarray \<Rightarrow> ndarray \<Rightarrow> ndarray \<Rightarrow> real \<Rightarrow> ndarray" where
  "gW1_of Xm y W1m b1m W2m b2m reg =
     bcl (+) (dotv (transpose_T Xm) (dH_of Xm y W1m b1m W2m b2m)) (scale reg W1m)"

lemma shape_simps3 [simp]:
  "nrows (S_of Xm W1m b1m W2m b2m) = nrows Xm" "ncols (S_of Xm W1m b1m W2m b2m) = ncols W2m"
  "nrows (dS_of Xm y W1m b1m W2m b2m) = nrows Xm" "ncols (dS_of Xm y W1m b1m W2m b2m) = ncols W2m"
  "nrows (dH_of Xm y W1m b1m W2m b2m) = nrows Xm" "ncols (dH_of Xm y W1m b1m W2m b2m) = nrows W2m"
  "nrows (gW2_of Xm y W1m b1m W2m b2m reg) = ncols W1m" "ncols (gW2_of Xm y W1m b1m W2m b2m reg) = ncols W2m"
  "nrows (gW1_of Xm y W1m b1m W2m b2m reg) = ncols Xm" "ncols (gW1_of Xm y W1m b1m W2m b2m reg) = nrows W2m"
  by (simp_all add: S_of_def dS_of_def dH_of_def gW2_of_def gW1_of_def)

lemma shapes_okD:
  assumes "shapes_ok Xm y W1m b1m W2m b2m N D H C"
  shows "nrows Xm = N" "ncols Xm = D" "length y = N" "labels_ok y C"
      "nrows W1m = D" "ncols W1m = H" "nrows b1m = 1" "ncols b1m = H"
      "nrows W2m = H" "ncols W2m = C" "nrows b2m = 1" "ncols b2m = C"
  using assms by (simp_all add: shapes_ok_def)










lemma net_batch_shapes_ok:
  assumes "net_shape self h D H C" "batch_ok h X y N D C"
  shows "shapes_ok (h ! X) y (param self h ''W1'') (param self h ''b1'')
           (param self h ''W2'') (param self h ''b2'') N D H C"
  using assms unfolding net_shape_def batch_ok_def shapes_ok_def
  by (auto elim!: has_paramD)

lemma loss_run:
  assumes net: "net_shape self h D H C" and b: "batch_ok h X y N D C" and N: "0 < N"
  shows "loss self X (Some y) reg h =
       (Inr (LossGrads (Fin (spec_loss (h ! X) y (param self h ''W1'') (param self h ''b1'')
              (param self h ''W2'') (param self h ''b2'') reg))
          [''W1'' \<mapsto> length h + 5, ''b1'' \<mapsto> length h + 6,
           ''W2'' \<mapsto> length h + 2, ''b2'' \<mapsto> length h + 3]),
        h @ [S_of (h ! X) (param self h ''W1'') (param self h ''b1'') (param self h ''W2'') (param self h ''b2''),
             dS_of (h ! X) y (param self h ''W1'') (param self h ''b1'') (param self h ''W2'') (param self h ''b2''),
             gW2_of (h ! X) y (param self h ''W1'') (param self h ''b1'') (param self h ''W2'') (param self h ''b2'') reg,
             np_sum_axis0 (dS_of (h ! X) y (param self h ''W1'') (param self h ''b1'') (param self h ''W2'') (param self h ''b2'')),
             dH_of (h ! X) y (param self h ''W1'') (param self h ''b1'') (param self h ''W2'') (param self h ''b2''),
             gW1_of (h ! X) y (param self h ''W1'') (param self h ''b1'') (param self h ''W2'') (param self h ''b2'') reg,
             np_sum_axis0 (dH_of (h ! X) y (param self h ''W1'') (param self h ''b1'') (param self h ''W2'') (param self h ''b2''))])"
proof -
  note s = shapes_okD[OF net_batch_shapes_ok[OF net b]]
  show ?thesis
    unfolding loss_exec[OF net b N] data_loss_eq[OF net b] np_sum_squares
    by (simp add: spec_loss_def S_of_def dS_of_def dH_of_def gW2_of_def gW1_of_def s)
qed






lemma loss_fst:
  assumes "net_shape self h D H C" "batch_ok h X y N D C" "0 < N"
  shows "fst (loss self X (Some y) reg h) =
       Inr (LossGrads (Fin (spec_loss (h ! X) y (param self h ''W1'') (param self h ''b1'')
              (param self h ''W2'') (param self h ''b2'') reg))
          [''W1'' \<mapsto> length h + 5, ''b1'' \<mapsto> length h + 6,
           ''W2'' \<mapsto> length h + 2, ''b2'' \<mapsto> length h + 3])"
  by (simp add: loss_run[OF assms])




subsection \<open>predict\<close>



lemma np_argmax_axis1_ok:
  "0 < ncols A \<Longrightarrow> np_argmax_axis1 A = Inr (map (\<lambda>i. argmax (map (elt A i) [0..<ncols A])) [0..<nrows A])"
  by (simp add: np_argmax_axis1_def)

lemma predict_exec:
  assumes net: "net_shape self h D H C" and X: "X < length h" "ncols (h ! X) = D" and C: "0 < C"
  shows "predict self X h =
     (Inr (map (\<lambda>i. argmax (map (elt (S_of (h ! X) (param self h ''W1'') (param self h ''b1'')
                  (param self h ''W2'') (param self h ''b2'')) i) [0..<C])) [0..<nrows (h ! X)]), h)"
proof -
  from net obtain aW1 ab1 aW2 ab2 where
    p: "params self ''W1'' = Some aW1" "params self ''b1'' = Some ab1"
       "params self ''W2'' = Some aW2" "params self ''b2'' = Some ab2"
    and a: "aW1 < length h" "ab1 < length h" "aW2 < length h" "ab2 < length h"
    and s: "nrows (h ! aW1) = D" "ncols (h ! aW1) = H" "nrows (h ! ab1) = 1" "ncols (h ! ab1) = H"
           "nrows (h ! aW2) = H" "ncols (h ! aW2) = C" "nrows (h ! ab2) = 1" "ncols (h ! ab2) = C"
    and q: "param self h ''W1'' = h ! aW1" "param self h ''b1'' = h ! ab1"
           "param self h ''W2'' = h ! aW2" "param self h ''b2'' = h ! ab2"
    unfolding net_shape_def by (elim conjE has_paramD) blast
  show ?thesis
    unfolding predict_def Let_def q
    using p a s X C
    by (simp add: np_dot_ok np_add_def broadcast2_ok np_argmax_axis1_ok
        S_of_def hidden_v_def scores_v_def)
qed




subsection \<open>train\<close>

subsection \<open>Inversion of successful runs\<close>

lemma seq_Inr: "seq m f h = (Inr r, h') \<longleftrightarrow> (\<exists>x h1. m h = (Inr x, h1) \<and> f x h1 = (Inr r, h'))"
  by (auto simp: seq_def split: prod.splits sum.splits)

lemma prim_Inr:
  "ret x h = (Inr r, h') \<longleftrightarrow> r = x \<and> h' = h"
  "raise e h = (Inr r, h') \<longleftrightarrow> False"
  "lift q h = (Inr r, h') \<longleftrightarrow> q = Inr r \<and> h' = h"
  "getitem d k h = (Inr v, h') \<longleftrightarrow> d k = Some v \<and> h' = h"
  "rd a h = (Inr A, h') \<longleftrightarrow> a < length h \<and> A = h ! a \<and> h' = h"
  "wr a B h = (Inr u, h') \<longleftrightarrow> a < length h \<and> h' = h[a := B]"
  "new B h = (Inr a, h') \<longleftrightarrow> a = length h \<and> h' = h @ [B]"
  by (auto simp: ret_def raise_def lift_def getitem_def rd_def wr_def new_def
      split: sum.splits option.splits)

subsection \<open>Shapes of the arrays of the store\<close>

definition shapes_kept :: "heap \<Rightarrow> heap \<Rightarrow> bool" where
  "shapes_kept h h' =
     (length h \<le> length h' \<and>
      (\<forall>a<length h. nrows (h' ! a) = nrows (h ! a) \<and> ncols (h' ! a) = ncols (h ! a)))"

lemma shapes_kept_refl [simp]: "shapes_kept h h" by (simp add: shapes_kept_def)

lemma shapes_kept_trans: "shapes_kept h h1 \<Longrightarrow> shapes_kept h1 h2 \<Longrightarrow> shapes_kept h h2"
  by (auto simp: shapes_kept_def)

lemma shapes_kept_append [simp]: "shapes_kept h (h @ xs)"
  by (simp add: shapes_kept_def nth_append)

definition sp :: "'a prog \<Rightarrow> bool" where
  "sp m = (\<forall>h. shapes_kept h (snd (m h)))"

lemma sp_ret: "sp (ret x)" by (simp add: sp_def)
lemma sp_raise: "sp (raise e)" by (simp add: sp_def)
lemma sp_lift: "sp (lift r)" by (cases r) (simp_all add: sp_ret sp_raise)
lemma sp_getitem: "sp (getitem d k)" by (cases "d k") (simp_all add: sp_ret sp_raise)
lemma sp_rd: "sp (rd a)" by (simp add: sp_def rd_def)
lemma sp_new: "sp (new v)" by (simp add: sp_def new_def)

lemma sp_seq:
  assumes "sp m" "\<And>x. sp (f x)"
  shows "sp (seq m f)"
  unfolding sp_def
proof
  fix h :: heap
  obtain r h1 where mh: "m h = (r, h1)" by (cases "m h")
  from assms(1) mh have 1: "shapes_kept h h1" by (auto simp: sp_def dest!: spec[of _ h])
  show "shapes_kept h (snd (seq m f h))"
  proof (cases r)
    case (Inl e)
    with mh 1 show ?thesis by (simp add: seq_def)
  next
    case (Inr x)
    from assms(2)[of x] have "shapes_kept h1 (snd (f x h1))" by (simp add: sp_def)
    with 1 mh Inr show ?thesis by (auto simp: seq_def intro: shapes_kept_trans)
  qed
qed

lemma sp_if: "sp a \<Longrightarrow> sp b \<Longrightarrow> sp (if c then a else b)" by simp
lemma sp_case_prod: "(\<And>a b. sp (f a b)) \<Longrightarrow> sp (case p of (a, b) \<Rightarrow> f a b)" by (cases p) simp
lemma sp_case_loss_result:
  "(\<And>a. sp (f a)) \<Longrightarrow> (\<And>l g. sp (k l g)) \<Longrightarrow> sp (case r of Scores a \<Rightarrow> f a | LossGrads l g \<Rightarrow> k l g)"
  by (cases r) simp_all

lemma inplace2_shape: "inplace2 f A V = Inr R \<Longrightarrow> nrows R = nrows A \<and> ncols R = ncols A"
  by (auto simp: inplace2_def split: sum.splits if_splits)

lemma sp_inplace:
  assumes "\<And>u. sp (k u)"
  shows "sp (seq (rd p) (\<lambda>pv. seq (lift (inplace2 f pv v)) (\<lambda>r. seq (wr p r) k)))"
  unfolding sp_def
proof
  fix h :: heap
  show "shapes_kept h (snd (seq (rd p) (\<lambda>pv. seq (lift (inplace2 f pv v)) (\<lambda>r. seq (wr p r) k)) h))"
  proof (cases "p < length h")
    case False
    then show ?thesis by (simp add: seq_def rd_def)
  next
    case True
    show ?thesis
    proof (cases "inplace2 f (h ! p) v")
      case (Inl e)
      with True show ?thesis by simp
    next
      case (Inr R)
      from inplace2_shape[OF Inr] True have 1: "shapes_kept h (h[p := R])"
        by (auto simp: shapes_kept_def nth_list_update)
      from assms[of "()"] have "shapes_kept (h[p := R]) (snd (k () (h[p := R])))"
        by (simp add: sp_def)
      with 1 True Inr show ?thesis by (auto intro: shapes_kept_trans)
    qed
  qed
qed

lemma sp_loss: "sp (loss self X y reg)"
  unfolding sp_def
proof
  fix h :: heap
  from pres_loss[of "length h" self X y reg]
  have "length h \<le> length (snd (loss self X y reg h))"
    and "take (length h) (snd (loss self X y reg h)) = h"
    by (simp_all add: pres_def)
  then show "shapes_kept h (snd (loss self X y reg h))"
    unfolding shapes_kept_def by (metis nth_take)
qed

lemma sp_predict: "sp (predict self X)"
  unfolding predict_def Let_def
  by (intro sp_seq sp_ret sp_lift sp_getitem sp_rd)

lemma sp_update_param: "sp (update_param k m lrate grads self v)"
  unfolding update_param_def
  by (intro sp_seq sp_inplace sp_ret sp_lift sp_getitem sp_rd)

lemma sp_param_updates: "sp (param_updates grads s)"
  unfolding param_updates_def Let_def
  by (intro sp_seq sp_case_prod sp_update_param sp_ret)

lemma sp_epoch_end: "sp (epoch_end Xb yb X_val y_val decay mu_increase verbose ipe it s)"
  unfolding epoch_end_def
  by (intro sp_if sp_seq sp_predict sp_lift sp_ret)

lemma sp_train_iter:
  "sp (train_iter draws X y X_val y_val decay reg mu_increase batch_size verbose num_train ipe it s)"
  unfolding train_iter_def Let_def
  by (intro sp_seq sp_case_loss_result sp_loss sp_param_updates sp_epoch_end sp_new sp_lift
        sp_rd sp_raise)

lemma sp_for_loop: "(\<And>it s. sp (body it s)) \<Longrightarrow> sp (for_loop body its s)"
  by (induction its arbitrary: s) (auto intro: sp_seq sp_ret)

lemma sp_train_locals:
  "sp (train_locals draws self X y X_val y_val lrate decay reg m num_epochs mu_increase batch_size verbose)"
  unfolding train_locals_def Let_def
  by (intro sp_seq sp_rd sp_if sp_raise sp_for_loop sp_train_iter)

lemma sp_train:
  "sp (train draws self X y X_val y_val lrate decay reg m num_epochs mu_increase batch_size verbose)"
  unfolding train_def by (intro sp_seq sp_train_locals sp_ret)

subsection \<open>The dictionary of parameters\<close>

lemma update_param_net:
  "update_param k m lrate grads self v h = (Inr (n, v'), h') \<Longrightarrow> n = self"
  by (auto simp: update_param_def seq_Inr prim_Inr map_upd_triv)

lemma case_loss_Inr:
  "(case r of Scores a \<Rightarrow> raise e | LossGrads l g \<Rightarrow> k l g) h = (Inr x, h')
     \<longleftrightarrow> (\<exists>l g. r = LossGrads l g \<and> k l g h = (Inr x, h'))"
  by (cases r) (simp_all add: prim_Inr)

lemma param_updates_net:
  "param_updates grads s h = (Inr s', h') \<Longrightarrow> net s' = net s"
  by (auto simp: param_updates_def seq_Inr prim_Inr Let_def dest!: update_param_net)

lemma epoch_end_net:
  "epoch_end Xb yb X_val y_val decay mu_increase verbose ipe it s h = (Inr s', h') \<Longrightarrow> net s' = net s"
  by (auto simp: epoch_end_def seq_Inr prim_Inr split: if_splits)

lemma train_iter_net:
  "train_iter draws X y X_val y_val decay reg mu_increase batch_size verbose num_train ipe it s h
     = (Inr s', h') \<Longrightarrow> net s' = net s"
  by (auto simp: train_iter_def seq_Inr prim_Inr case_loss_Inr Let_def
      dest!: param_updates_net epoch_end_net)

lemma for_loop_net:
  "for_loop (train_iter draws X y X_val y_val decay reg mu_increase batch_size verbose num_train ipe)
      its s h = (Inr s', h') \<Longrightarrow> net s' = net s"
proof (induction its arbitrary: s h)
  case Nil
  then show ?case by (simp add: prim_Inr)
next
  case (Cons it its)
  then show ?case by (auto simp: seq_Inr dest!: train_iter_net)
qed

lemma train_net:
  assumes "train draws self X y X_val y_val lrate decay reg m num_epochs mu_increase batch_size verbose h
     = (Inr (self', res), h')"
  shows "self' = self"
proof -
  from assms obtain s where
    "train_locals draws self X y X_val y_val lrate decay reg m num_epochs mu_increase batch_size verbose h
       = (Inr s, h')" and s: "self' = net s"
    by (auto simp: train_def seq_Inr prim_Inr)
  then have "net s = self"
    by (auto simp: train_locals_def seq_Inr prim_Inr Let_def split: if_splits
        dest!: for_loop_net)
  with s show ?thesis by simp
qed

subsection \<open>One parameter update\<close>

definition vel_ok :: "velocity \<Rightarrow> nat \<Rightarrow> nat \<Rightarrow> bool" where
  "vel_ok v r c = (case v of VNum x \<Rightarrow> True | VArr V \<Rightarrow> nrows V = r \<and> ncols V = c)"

definition vel_at :: "velocity \<Rightarrow> nat \<Rightarrow> nat \<Rightarrow> real" where
  "vel_at v i j = (case v of VNum x \<Rightarrow> x | VArr V \<Rightarrow> elt V i j)"

text \<open>The classical momentum recurrence for the parameter \<open>k\<close>, between the store \<open>h\<close>
  before the two statements and the store \<open>h'\<close> after them: the new velocity is
  \<open>m * v - lr * gradient\<close>, the parameter array (same address, same shape) is the old one
  plus the new velocity, and no other array changes.\<close>

definition momentum_update ::
    "string \<Rightarrow> real \<Rightarrow> real \<Rightarrow> TwoLayerNet \<Rightarrow> (string \<rightharpoonup> addr) \<Rightarrow> velocity \<Rightarrow> velocity
      \<Rightarrow> heap \<Rightarrow> heap \<Rightarrow> bool" where
  "momentum_update k m lr self grads v v' h h' =
     (\<exists>p g V. params self k = Some p \<and> grads k = Some g \<and> p < length h \<and> g < length h \<and>
        v' = VArr V \<and> length h' = length h \<and> (\<forall>a<length h. a \<noteq> p \<longrightarrow> h' ! a = h ! a) \<and>
        nrows (h' ! p) = nrows (h ! p) \<and> ncols (h' ! p) = ncols (h ! p) \<and>
        nrows V = nrows (h ! p) \<and> ncols V = ncols (h ! p) \<and>
        (\<forall>i<nrows (h ! p). \<forall>j<ncols (h ! p).
            elt V i j = m * vel_at v i j - lr * elt (h ! g) i j \<and>
            elt (h' ! p) i j = elt (h ! p) i j + elt V i j))"

definition mom_v :: "real \<Rightarrow> velocity \<Rightarrow> real \<Rightarrow> ndarray \<Rightarrow> ndarray" where
  "mom_v m v lr G =
     (case v of
        VNum x \<Rightarrow> mk (nrows G) (ncols G) (\<lambda>i j. m * x - lr * elt G i j)
      | VArr V \<Rightarrow> bcl (-) (scale m V) (scale lr G))"

lemma momentum_step_ok:
  "vel_ok v (nrows G) (ncols G) \<Longrightarrow> momentum_step m v lr G = Inr (mom_v m v lr G)"
  by (cases v) (simp_all add: momentum_step_def mom_v_def vel_ok_def np_sub_def broadcast2_ok)

lemma mom_v_shape:
  "vel_ok v (nrows G) (ncols G) \<Longrightarrow> nrows (mom_v m v lr G) = nrows G \<and> ncols (mom_v m v lr G) = ncols G"
  by (cases v) (simp_all add: mom_v_def vel_ok_def)

lemma elt_mom_v:
  "vel_ok v (nrows G) (ncols G) \<Longrightarrow> i < nrows G \<Longrightarrow> j < ncols G \<Longrightarrow>
   elt (mom_v m v lr G) i j = m * vel_at v i j - lr * elt G i j"
  by (cases v) (simp_all add: mom_v_def vel_ok_def vel_at_def elt_bcl belt_self elt_scale)

lemma update_param_exec:
  assumes "params self k = Some p" "grads k = Some g" "p < length h" "g < length h"
    "nrows (h ! g) = nrows (h ! p)" "ncols (h ! g) = ncols (h ! p)"
    "vel_ok v (nrows (h ! p)) (ncols (h ! p))"
  shows "update_param k m lr grads self v h =
     (Inr (self, VArr (mom_v m v lr (h ! g))), h[p := bcl (+) (h ! p) (mom_v m v lr (h ! g))])"
proof -
  have v: "vel_ok v (nrows (h ! g)) (ncols (h ! g))" using assms by simp
  show ?thesis
    unfolding update_param_def
    using assms(1-6) mom_v_shape[OF v, of m lr]
    by (simp add: momentum_step_ok[OF v] inplace2_ok map_upd_triv)
qed

lemma update_param_step:
  assumes "params self k = Some p" "grads k = Some g" "p < length h" "g < length h"
    "nrows (h ! g) = nrows (h ! p)" "ncols (h ! g) = ncols (h ! p)"
    "vel_ok v (nrows (h ! p)) (ncols (h ! p))"
  shows "\<exists>V h'. update_param k m lr grads self v h = (Inr (self, VArr V), h') \<and>
           momentum_update k m lr self grads v (VArr V) h h'"
proof -
  have v: "vel_ok v (nrows (h ! g)) (ncols (h ! g))" using assms by simp
  let ?V = "mom_v m v lr (h ! g)"
  let ?h' = "h[p := bcl (+) (h ! p) ?V]"
  have "momentum_update k m lr self grads v (VArr ?V) h ?h'"
    unfolding momentum_update_def
    apply (rule exI[of _ p], rule exI[of _ g], rule exI[of _ ?V])
    using assms(1-6) mom_v_shape[OF v, of m lr] elt_mom_v[OF v, of _ _ m lr]
    by (simp add: elt_bcl belt_self)
  with update_param_exec[of self k p grads g h v m lr] assms show ?thesis by blast
qed

definition same_shapes :: "heap \<Rightarrow> heap \<Rightarrow> bool" where
  "same_shapes h h' =
     (length h' = length h \<and>
      (\<forall>a<length h. nrows (h' ! a) = nrows (h ! a) \<and> ncols (h' ! a) = ncols (h ! a)))"

lemma same_shapes_refl [simp]: "same_shapes h h" by (simp add: same_shapes_def)

lemma same_shapes_trans: "same_shapes h h1 \<Longrightarrow> same_shapes h1 h2 \<Longrightarrow> same_shapes h h2"
  by (auto simp: same_shapes_def)

lemma momentum_update_same_shapes:
  "momentum_update k m lr self grads v v' h h' \<Longrightarrow> same_shapes h h'"
  unfolding momentum_update_def same_shapes_def
  by (metis (no_types, lifting))

definition has_entry :: "(string \<rightharpoonup> addr) \<Rightarrow> heap \<Rightarrow> string \<Rightarrow> nat \<Rightarrow> nat \<Rightarrow> bool" where
  "has_entry d h k r c =
     (case d k of None \<Rightarrow> False | Some a \<Rightarrow> a < length h \<and> nrows (h ! a) = r \<and> ncols (h ! a) = c)"

lemma has_param_entry: "has_param self h k r c = has_entry (params self) h k r c"
  by (simp add: has_param_def has_entry_def)

lemma has_entry_same_shapes: "has_entry d h k r c \<Longrightarrow> same_shapes h h' \<Longrightarrow> has_entry d h' k r c"
  by (auto simp: has_entry_def same_shapes_def split: option.splits)

lemma has_entry_shapes_kept: "has_entry d h k r c \<Longrightarrow> shapes_kept h h' \<Longrightarrow> has_entry d h' k r c"
  by (auto simp: has_entry_def shapes_kept_def split: option.splits)

lemma same_shapes_kept: "same_shapes h h' \<Longrightarrow> shapes_kept h h'"
  by (simp add: same_shapes_def shapes_kept_def)

lemma net_shape_kept: "net_shape self h D H C \<Longrightarrow> shapes_kept h h' \<Longrightarrow> net_shape self h' D H C"
  by (auto simp: net_shape_def has_param_entry intro: has_entry_shapes_kept)

lemma update_param_entry:
  assumes "has_entry (params self) h k r c" "has_entry grads h k r c" "vel_ok v r c"
  shows "\<exists>V h'. update_param k m lr grads self v h = (Inr (self, VArr V), h') \<and>
           momentum_update k m lr self grads v (VArr V) h h' \<and> vel_ok (VArr V) r c \<and> same_shapes h h'"
proof -
  from assms(1) obtain p where p: "params self k = Some p" "p < length h" "nrows (h ! p) = r" "ncols (h ! p) = c"
    by (auto simp: has_entry_def split: option.splits)
  from assms(2) obtain g where g: "grads k = Some g" "g < length h" "nrows (h ! g) = r" "ncols (h ! g) = c"
    by (auto simp: has_entry_def split: option.splits)
  from update_param_step[of self k p grads g h v m lr] p g assms(3)
  obtain V h' where 1: "update_param k m lr grads self v h = (Inr (self, VArr V), h')"
    and 2: "momentum_update k m lr self grads v (VArr V) h h'"
    by auto
  from 2 p have "vel_ok (VArr V) r c"
    by (auto simp: momentum_update_def vel_ok_def)
  with 1 2 momentum_update_same_shapes[OF 2] show ?thesis by blast
qed

definition vels_ok :: "loop_state \<Rightarrow> nat \<Rightarrow> nat \<Rightarrow> nat \<Rightarrow> bool" where
  "vels_ok s D H C =
     (vel_ok (v_W1 s) D H \<and> vel_ok (v_b1 s) 1 H \<and> vel_ok (v_W2 s) H C \<and> vel_ok (v_b2 s) 1 C)"

definition grads_shape :: "(string \<rightharpoonup> addr) \<Rightarrow> heap \<Rightarrow> nat \<Rightarrow> nat \<Rightarrow> nat \<Rightarrow> bool" where
  "grads_shape grads h D H C =
     (has_entry grads h ''W1'' D H \<and> has_entry grads h ''b1'' 1 H \<and>
      has_entry grads h ''W2'' H C \<and> has_entry grads h ''b2'' 1 C)"

text \<open>The four updates of one iteration, each the momentum recurrence on the store the
  previous one left.\<close>

definition four_updates :: "(string \<rightharpoonup> addr) \<Rightarrow> loop_state \<Rightarrow> loop_state \<Rightarrow> heap \<Rightarrow> heap \<Rightarrow> bool" where
  "four_updates grads s s' h h' =
     (\<exists>h1 h2 h3.
        momentum_update ''W2'' (mu s) (learning_rate s) (net s) grads (v_W2 s) (v_W2 s') h h1 \<and>
        momentum_update ''b2'' (mu s) (learning_rate s) (net s) grads (v_b2 s) (v_b2 s') h1 h2 \<and>
        momentum_update ''W1'' (mu s) (learning_rate s) (net s) grads (v_W1 s) (v_W1 s') h2 h3 \<and>
        momentum_update ''b1'' (mu s) (learning_rate s) (net s) grads (v_b1 s) (v_b1 s') h3 h')"

lemma param_updates_exec:
  assumes net: "net_shape (net s) h D H C" and g: "grads_shape grads h D H C"
    and v: "vels_ok s D H C"
  shows "\<exists>s' h'. param_updates grads s h = (Inr s', h') \<and> four_updates grads s s' h h' \<and>
     net s' = net s \<and> learning_rate s' = learning_rate s \<and> mu s' = mu s \<and> hist s' = hist s \<and>
     vels_ok s' D H C \<and> same_shapes h h'"
proof -
  let ?m = "mu s" and ?lr = "learning_rate s" and ?n = "net s"
  from net have p: "has_entry (params ?n) h ''W1'' D H" "has_entry (params ?n) h ''b1'' 1 H"
      "has_entry (params ?n) h ''W2'' H C" "has_entry (params ?n) h ''b2'' 1 C"
    by (simp_all add: net_shape_def has_param_entry)
  from g have g: "has_entry grads h ''W1'' D H" "has_entry grads h ''b1'' 1 H"
      "has_entry grads h ''W2'' H C" "has_entry grads h ''b2'' 1 C"
    by (simp_all add: grads_shape_def)
  from v have v: "vel_ok (v_W1 s) D H" "vel_ok (v_b1 s) 1 H" "vel_ok (v_W2 s) H C" "vel_ok (v_b2 s) 1 C"
    by (simp_all add: vels_ok_def)
  from update_param_entry[OF p(3) g(3) v(3), of ?m ?lr] obtain V1 h1 where
    u1: "update_param ''W2'' ?m ?lr grads ?n (v_W2 s) h = (Inr (?n, VArr V1), h1)"
    and m1: "momentum_update ''W2'' ?m ?lr ?n grads (v_W2 s) (VArr V1) h h1"
    and o1: "vel_ok (VArr V1) H C" and s1: "same_shapes h h1" by blast
  from update_param_entry[OF has_entry_same_shapes[OF p(4) s1] has_entry_same_shapes[OF g(4) s1] v(4), of ?m ?lr]
  obtain V2 h2 where
    u2: "update_param ''b2'' ?m ?lr grads ?n (v_b2 s) h1 = (Inr (?n, VArr V2), h2)"
    and m2: "momentum_update ''b2'' ?m ?lr ?n grads (v_b2 s) (VArr V2) h1 h2"
    and o2: "vel_ok (VArr V2) 1 C" and s2: "same_shapes h1 h2" by blast
  note s02 = same_shapes_trans[OF s1 s2]
  from update_param_entry[OF has_entry_same_shapes[OF p(1) s02] has_entry_same_shapes[OF g(1) s02] v(1), of ?m ?lr]
  obtain V3 h3 where
    u3: "update_param ''W1'' ?m ?lr grads ?n (v_W1 s) h2 = (Inr (?n, VArr V3), h3)"
    and m3: "momentum_update ''W1'' ?m ?lr ?n grads (v_W1 s) (VArr V3) h2 h3"
    and o3: "vel_ok (VArr V3) D H" and s3: "same_shapes h2 h3" by blast
  note s03 = same_shapes_trans[OF s02 s3]
  from update_param_entry[OF has_entry_same_shapes[OF p(2) s03] has_entry_same_shapes[OF g(2) s03] v(2), of ?m ?lr]
  obtain V4 h4 where
    u4: "update_param ''b1'' ?m ?lr grads ?n (v_b1 s) h3 = (Inr (?n, VArr V4), h4)"
    and m4: "momentum_update ''b1'' ?m ?lr ?n grads (v_b1 s) (VArr V4) h3 h4"
    and o4: "vel_ok (VArr V4) 1 H" and s4: "same_shapes h3 h4" by blast
  note s04 = same_shapes_trans[OF s03 s4]
  let ?s' = "s\<lparr>v_W2 := VArr V1, v_b2 := VArr V2, v_W1 := VArr V3, v_b1 := VArr V4\<rparr>"
  have run: "param_updates grads s h = (Inr ?s', h4)"
    by (simp add: param_updates_def seq_def Let_def u1 u2 u3 u4)
  have four: "four_updates grads s ?s' h h4"
    unfolding four_updates_def using m1 m2 m3 m4 by auto
  have "vels_ok ?s' D H C" using o1 o2 o3 o4 by (simp add: vels_ok_def)
  with run four s04 show ?thesis by (intro exI[of _ ?s'] exI[of _ h4]) simp
qed

lemma accuracy_ok: "length p = length y \<Longrightarrow> \<exists>a. accuracy p y = Inr a"
  by (simp add: accuracy_def Let_def)

lemma predict_ok:
  assumes "net_shape self h D H C" "X < length h" "ncols (h ! X) = D" "0 < C"
  shows "\<exists>p. predict self X h = (Inr p, h) \<and> length p = nrows (h ! X)"
  unfolding predict_exec[OF assms] by simp

lemma epoch_end_exec:
  assumes net: "net_shape (net s) h D H C" and C: "0 < C"
    and b: "Xb < length h" "ncols (h ! Xb) = D" "nrows (h ! Xb) = length yb"
    and v: "X_val < length h" "ncols (h ! X_val) = D" "nrows (h ! X_val) = length y_val"
  shows "\<exists>s'. epoch_end Xb yb X_val y_val decay mu_increase verbose ipe it s h = (Inr s', h) \<and>
      net s' = net s \<and> v_W1 s' = v_W1 s \<and> v_b1 s' = v_b1 s \<and> v_W2 s' = v_W2 s \<and> v_b2 s' = v_b2 s \<and>
      loss_history (hist s') = loss_history (hist s)"
proof (cases "verbose \<and> it mod ipe = 0")
  case False
  then show ?thesis by (auto simp: epoch_end_def)
next
  case True
  from predict_ok[OF net b(1,2) C] obtain p1 where
    p1: "predict (net s) Xb h = (Inr p1, h)" "length p1 = nrows (h ! Xb)" by blast
  from predict_ok[OF net v(1,2) C] obtain p2 where
    p2: "predict (net s) X_val h = (Inr p2, h)" "length p2 = nrows (h ! X_val)" by blast
  from accuracy_ok[of p1 yb] p1 b obtain a1 where a1: "accuracy p1 yb = Inr a1" by auto
  from accuracy_ok[of p2 y_val] p2 v obtain a2 where a2: "accuracy p2 y_val = Inr a2" by auto
  show ?thesis
    using True by (simp add: epoch_end_def seq_def p1 p2 a1 a2)
qed

text \<open>A call of \<open>train\<close> on well-shaped data: the network, the training batch of \<open>N \<ge> 1\<close>
  rows with its labels, and the validation data.\<close>

definition train_ready ::
    "TwoLayerNet \<Rightarrow> addr \<Rightarrow> int list \<Rightarrow> addr \<Rightarrow> int list \<Rightarrow> nat \<Rightarrow> nat \<Rightarrow> nat \<Rightarrow> nat \<Rightarrow> heap \<Rightarrow> bool" where
  "train_ready self X y X_val y_val N D H C h =
     (net_shape self h D H C \<and> batch_ok h X y N D C \<and> 0 < N \<and>
      X_val < length h \<and> ncols (h ! X_val) = D \<and> nrows (h ! X_val) = length y_val)"

definition train_inv ::
    "TwoLayerNet \<Rightarrow> addr \<Rightarrow> int list \<Rightarrow> addr \<Rightarrow> int list \<Rightarrow> nat \<Rightarrow> nat \<Rightarrow> nat \<Rightarrow> nat
      \<Rightarrow> loop_state \<Rightarrow> heap \<Rightarrow> bool" where
  "train_inv self X y X_val y_val N D H C s h =
     (train_ready self X y X_val y_val N D H C h \<and> net s = self \<and> vels_ok s D H C)"

definition rows_v :: "ndarray \<Rightarrow> nat list \<Rightarrow> ndarray" where
  "rows_v A idx = mk (length idx) (ncols A) (\<lambda>i j. elt A (idx ! i) j)"

definition sample_v :: "(nat \<Rightarrow> nat) \<Rightarrow> nat \<Rightarrow> int \<Rightarrow> nat list" where
  "sample_v u N batch_size = map (\<lambda>k. u k mod N) [0..<nat batch_size]"

lemma seq_exec: "m h = (Inr x, h1) \<Longrightarrow> seq m f h = f x h1"
  by (simp add: seq_def)

lemma np_random_choice_ok:
  "0 < N \<Longrightarrow> 0 \<le> batch_size \<Longrightarrow> np_random_choice u N batch_size = Inr (sample_v u N batch_size)"
  by (simp add: np_random_choice_def sample_v_def)

lemma sample_v_props:
  "0 < N \<Longrightarrow> length (sample_v u N batch_size) = nat batch_size \<and>
     (\<forall>i\<in>set (sample_v u N batch_size). i < N)"
  by (auto simp: sample_v_def)

lemma take_rows_ok: "\<forall>i\<in>set idx. i < nrows A \<Longrightarrow> take_rows A idx = Inr (rows_v A idx)"
  by (simp add: take_rows_def rows_v_def list_all_iff)

lemma take_labels_ok: "\<forall>i\<in>set idx. i < length y \<Longrightarrow> take_labels y idx = Inr (map (\<lambda>i. y ! i) idx)"
  by (simp add: take_labels_def list_all_iff)

lemma labels_ok_map: "labels_ok y C \<Longrightarrow> \<forall>i\<in>set idx. i < length y \<Longrightarrow> labels_ok (map (\<lambda>i. y ! i) idx) C"
  by (auto simp: labels_ok_def list_all_iff)

lemma batch_ok_kept: "batch_ok h X y N D C \<Longrightarrow> shapes_kept h h' \<Longrightarrow> batch_ok h' X y N D C"
  by (auto simp: batch_ok_def shapes_kept_def)

lemma train_ready_kept:
  "train_ready self X y X_val y_val N D H C h \<Longrightarrow> shapes_kept h h'
     \<Longrightarrow> train_ready self X y X_val y_val N D H C h'"
  unfolding train_ready_def
  by (auto intro: net_shape_kept batch_ok_kept simp: shapes_kept_def)

lemma four_updates_cong:
  assumes "four_updates grads s1 s2 h h'"
    "mu s = mu s1" "learning_rate s = learning_rate s1" "net s = net s1"
    "v_W1 s = v_W1 s1" "v_b1 s = v_b1 s1" "v_W2 s = v_W2 s1" "v_b2 s = v_b2 s1"
    "v_W1 s' = v_W1 s2" "v_b1 s' = v_b1 s2" "v_W2 s' = v_W2 s2" "v_b2 s' = v_b2 s2"
  shows "four_updates grads s s' h h'"
  using assms by (simp add: four_updates_def)

lemma loss_grads_shape:
  assumes net: "net_shape self h D H C" and b: "batch_ok h X y N D C" and N: "0 < N"
  shows "\<exists>l grads hL. loss self X (Some y) reg h = (Inr (LossGrads l grads), hL) \<and>
      grads_shape grads hL D H C \<and> shapes_kept h hL \<and> length hL = length h + 7 \<and>
      take (length h) hL = h"
proof -
  note s = shapes_okD[OF net_batch_shapes_ok[OF net b]]
  show ?thesis
    unfolding loss_run[OF net b N]
    by (intro exI conjI, rule refl)
       (simp_all add: grads_shape_def has_entry_def nth_append s)
qed

lemma train_iter_exec:
  assumes inv: "train_inv self X y X_val y_val N D H C s h" and bs: "0 < batch_size"
  shows "\<exists>s' h' l grads hL.
     loss self (length h) (Some (map (\<lambda>i. y ! i) (sample_v (draws (nat it)) N batch_size))) reg
        (h @ [rows_v (h ! X) (sample_v (draws (nat it)) N batch_size)])
       = (Inr (LossGrads l grads), hL) \<and>
     four_updates grads s s' hL h' \<and>
     train_iter draws X y X_val y_val decay reg mu_increase batch_size verbose N ipe it s h
       = (Inr s', h') \<and>
     train_inv self X y X_val y_val N D H C s' h' \<and>
     loss_history (hist s') = loss_history (hist s) @ [l]"
proof -
  let ?idx = "sample_v (draws (nat it)) N batch_size"
  let ?xb = "rows_v (h ! X) ?idx"
  let ?yb = "map (\<lambda>i. y ! i) ?idx"
  let ?hb = "h @ [?xb]"
  from inv have rdy: "train_ready self X y X_val y_val N D H C h" and ns: "net s = self"
    and vs: "vels_ok s D H C"
    by (simp_all add: train_inv_def)
  from rdy have net: "net_shape self h D H C" and b: "batch_ok h X y N D C" and N: "0 < N"
    and xv: "X_val < length h" "ncols (h ! X_val) = D" "nrows (h ! X_val) = length y_val"
    by (simp_all add: train_ready_def)
  from b have x: "X < length h" "nrows (h ! X) = N" "ncols (h ! X) = D" "length y = N" "labels_ok y C"
    by (simp_all add: batch_ok_def)
  have C: "0 < C" using x(4,5) N by (cases y) (auto simp: labels_ok_def)
  note sp = sample_v_props[OF N, of "draws (nat it)" batch_size]
  have ch: "np_random_choice (draws (nat it)) N batch_size = Inr ?idx"
    using N bs by (simp add: np_random_choice_ok)
  have tr: "take_rows (h ! X) ?idx = Inr ?xb" using sp x by (simp add: take_rows_ok)
  have tl: "take_labels y ?idx = Inr ?yb" using sp x by (simp add: take_labels_ok)
  have netb: "net_shape self ?hb D H C" using net by (rule net_shape_kept) simp
  have bb: "batch_ok ?hb (length h) ?yb (nat batch_size) D C"
    using sp x labels_ok_map[of y C ?idx] by (simp add: batch_ok_def rows_v_def)
  have nb: "0 < nat batch_size" using bs by simp
  from loss_grads_shape[OF netb bb nb, of reg] obtain l grads hL where
    run: "loss self (length h) (Some ?yb) reg ?hb = (Inr (LossGrads l grads), hL)"
    and gs: "grads_shape grads hL D H C" and k1: "shapes_kept ?hb hL" and tk: "take (length ?hb) hL = ?hb"
    by blast
  have k0: "shapes_kept h hL" by (rule shapes_kept_trans[OF _ k1]) simp
  let ?sl = "s\<lparr>hist := (hist s)\<lparr>loss_history := loss_history (hist s) @ [l]\<rparr>\<rparr>"
  have netL: "net_shape (net ?sl) hL D H C" using net_shape_kept[OF net k0] ns by simp
  have vsl: "vels_ok ?sl D H C" using vs by (simp add: vels_ok_def)
  from param_updates_exec[OF netL gs vsl] obtain s1 h4 where
    pu: "param_updates grads ?sl hL = (Inr s1, h4)" and four: "four_updates grads ?sl s1 hL h4"
    and f1: "net s1 = net ?sl" "learning_rate s1 = learning_rate ?sl" "mu s1 = mu ?sl" "hist s1 = hist ?sl"
    and vs1: "vels_ok s1 D H C" and ss: "same_shapes hL h4"
    by blast
  have k4: "shapes_kept h h4" by (rule shapes_kept_trans[OF k0 same_shapes_kept[OF ss]])
  have kb4: "shapes_kept ?hb h4" by (rule shapes_kept_trans[OF k1 same_shapes_kept[OF ss]])
  have net4: "net_shape (net s1) h4 D H C" using net_shape_kept[OF net k4] f1 ns by simp
  have xb4: "length h < length h4" "ncols (h4 ! length h) = D" "nrows (h4 ! length h) = length ?yb"
    using kb4 sp by (auto simp: shapes_kept_def rows_v_def x dest!: spec[of _ "length h"])
  have xv4: "X_val < length h4" "ncols (h4 ! X_val) = D" "nrows (h4 ! X_val) = length y_val"
    using k4 xv by (auto simp: shapes_kept_def)
  from epoch_end_exec[OF net4 C xb4 xv4, of decay mu_increase verbose ipe it] obtain s' where
    ee: "epoch_end (length h) ?yb X_val y_val decay mu_increase verbose ipe it s1 h4 = (Inr s', h4)"
    and f2: "net s' = net s1" "v_W1 s' = v_W1 s1" "v_b1 s' = v_b1 s1" "v_W2 s' = v_W2 s1"
       "v_b2 s' = v_b2 s1" "loss_history (hist s') = loss_history (hist s1)"
    by blast
  have it: "train_iter draws X y X_val y_val decay reg mu_increase batch_size verbose N ipe it s h
       = (Inr s', h4)"
  proof -
    have r1: "seq (loss self (length h) (Some ?yb) reg) f ?hb = f (LossGrads l grads) hL" for f :: "loss_result \<Rightarrow> loop_state prog"
      using run by (simp add: seq_def)
    have r2: "seq (param_updates grads ?sl) f hL = f s1 h4" for f :: "loop_state \<Rightarrow> loop_state prog"
      using pu by (simp add: seq_def)
    show ?thesis
      unfolding train_iter_def using x(1) ns
      by (simp add: ch tr tl r1 r2 ee Let_def)
  qed
  have four': "four_updates grads s s' hL h4"
    by (rule four_updates_cong[OF four]) (simp_all add: f2)
  have inv': "train_inv self X y X_val y_val N D H C s' h4"
    using train_ready_kept[OF rdy k4] f1 f2 ns vs1 by (simp add: train_inv_def vels_ok_def)
  have lh: "loss_history (hist s') = loss_history (hist s) @ [l]" using f1 f2 by simp
  from run four' it inv' lh show ?thesis by blast
qed

lemma for_loop_exec:
  assumes "train_inv self X y X_val y_val N D H C s h" "0 < batch_size"
  shows "\<exists>s' h'. for_loop (train_iter draws X y X_val y_val decay reg mu_increase batch_size
                      verbose N ipe) its s h = (Inr s', h') \<and>
           train_inv self X y X_val y_val N D H C s' h' \<and>
           length (loss_history (hist s')) = length (loss_history (hist s)) + length its"
  using assms(1)
proof (induction its arbitrary: s h)
  case Nil
  then show ?case by simp
next
  case (Cons it its)
  from train_iter_exec[OF Cons.prems assms(2), where draws=draws and it=it and reg=reg
      and decay=decay and mu_increase=mu_increase and verbose=verbose and ipe=ipe]
  obtain s1 h1 l where
    1: "train_iter draws X y X_val y_val decay reg mu_increase batch_size verbose N ipe it s h
         = (Inr s1, h1)"
    and 2: "train_inv self X y X_val y_val N D H C s1 h1"
    and 3: "loss_history (hist s1) = loss_history (hist s) @ [l]"
    by blast
  from Cons.IH[OF 2] obtain s' h' where
    4: "for_loop (train_iter draws X y X_val y_val decay reg mu_increase batch_size verbose N ipe)
          its s1 h1 = (Inr s', h')"
    and 5: "train_inv self X y X_val y_val N D H C s' h'"
    and 6: "length (loss_history (hist s')) = length (loss_history (hist s1)) + length its"
    by blast
  have "for_loop (train_iter draws X y X_val y_val decay reg mu_increase batch_size verbose N ipe)
          (it # its) s h = (Inr s', h')"
    using 1 4 by (simp add: seq_def)
  with 5 6 3 show ?case by simp
qed

lemma train_locals_start:
  assumes "X < length h" "batch_size \<noteq> 0"
  shows "train_locals draws self X y X_val y_val lrate decay reg m num_epochs mu_increase
           batch_size verbose h =
         for_loop (train_iter draws X y X_val y_val decay reg mu_increase batch_size verbose
                     (nrows (h ! X)) (max (int (nrows (h ! X)) div batch_size) 1))
           [1..num_epochs * max (int (nrows (h ! X)) div batch_size) 1]
           \<lparr>net = self, v_W2 = VNum 0, v_b2 = VNum 0, v_W1 = VNum 0, v_b1 = VNum 0,
              learning_rate = lrate, mu = m,
              hist = \<lparr>loss_history = [], train_acc_history = [], val_acc_history = []\<rparr>\<rparr> h"
  using assms by (simp add: train_locals_def Let_def)

lemma train_exec:
  assumes rdy: "train_ready self X y X_val y_val N D H C h" and bs: "0 < batch_size"
    and ne: "0 \<le> num_epochs"
  shows "\<exists>self' res h'.
     train draws self X y X_val y_val lrate decay reg m num_epochs mu_increase batch_size verbose h
       = (Inr (self', res), h') \<and>
     int (length (loss_history res)) = num_epochs * max (int N div batch_size) 1"
proof -
  from rdy have x: "X < length h" "nrows (h ! X) = N"
    by (simp_all add: train_ready_def batch_ok_def)
  let ?ipe = "max (int N div batch_size) 1"
  let ?s0 = "\<lparr>net = self, v_W2 = VNum 0, v_b2 = VNum 0, v_W1 = VNum 0, v_b1 = VNum 0,
              learning_rate = lrate, mu = m,
              hist = \<lparr>loss_history = [], train_acc_history = [], val_acc_history = []\<rparr>\<rparr>"
  have inv: "train_inv self X y X_val y_val N D H C ?s0 h"
    using rdy by (simp add: train_inv_def vels_ok_def vel_ok_def)
  from for_loop_exec[OF inv bs, where draws=draws and reg=reg and decay=decay
      and mu_increase=mu_increase and verbose=verbose and ipe="?ipe" and its="[1..num_epochs * ?ipe]"]
  obtain s' h' where
    1: "for_loop (train_iter draws X y X_val y_val decay reg mu_increase batch_size verbose N ?ipe)
          [1..num_epochs * ?ipe] ?s0 h = (Inr s', h')"
    and 2: "length (loss_history (hist s')) = length [1..num_epochs * ?ipe]"
    by auto
  have 3: "train_locals draws self X y X_val y_val lrate decay reg m num_epochs mu_increase
           batch_size verbose h = (Inr s', h')"
    using train_locals_start[OF x(1), of batch_size] bs 1 x(2) by simp
  have "0 \<le> num_epochs * ?ipe" using ne by simp
  then have 4: "int (length [1..num_epochs * ?ipe]) = num_epochs * ?ipe" by simp
  have "train draws self X y X_val y_val lrate decay reg m num_epochs mu_increase batch_size verbose h
       = (Inr (net s', hist s'), h')"
    by (simp add: train_def seq_def 3)
  with 2 4 show ?thesis by (intro exI[of _ "net s'"] exI[of _ "hist s'"] exI[of _ h']) simp
qed







subsection \<open>The block at the end of an epoch\<close>








lemma init_exec:
  assumes "0 \<le> D" "0 \<le> H" "0 \<le> C"
  shows "init g D H C std h =
     (Inr \<lparr>params = [''W1'' \<mapsto> length h, ''b1'' \<mapsto> length h + 1,
                       ''W2'' \<mapsto> length h + 2, ''b2'' \<mapsto> length h + 3]\<rparr>,
      h @ [scale std (mk (nat D) (nat H) (\<lambda>i j. g (i * nat H + j))),
           mk 1 (nat H) (\<lambda>i j. 0),
           scale std (mk (nat H) (nat C) (\<lambda>i j. g (nat (D * H) + (i * nat C + j)))),
           mk 1 (nat C) (\<lambda>i j. 0)])"
  using assms
  by (simp add: init_def np_random_randn_def np_zeros_def eval_nat_numeral)

text \<open>
  C7. Construction with non-negative sizes \<open>D, H, C\<close> allocates four arrays and binds
  exactly the names \<open>W1\<close>, \<open>b1\<close>, \<open>W2\<close>, \<open>b2\<close> to them: \<open>W1\<close> is \<open>D \<times> H\<close> and \<open>W2\<close> is
  \<open>H \<times> C\<close>, with entries \<open>std\<close> times the successive normal draws; \<open>b1\<close> and \<open>b2\<close> are one
  row of \<open>H\<close> and of \<open>C\<close> zeros (numpy shape \<open>(1, H)\<close> and \<open>(1, C)\<close>). Whatever \<open>train\<close> does
  (returning or raising), every array that was in the store keeps its shape; when it
  returns, the dictionary binds the same names to the same arrays: the parameters are
  updated in place and never resized.
\<close>

theorem init_shapes_train_keeps:
  "(0 \<le> D \<and> 0 \<le> H \<and> 0 \<le> C \<longrightarrow>
      (\<exists>self h'. init g D H C std h = (Inr self, h') \<and> take (length h) h' = h \<and>
         dom (params self) = {''W1'', ''b1'', ''W2'', ''b2''} \<and>
         net_shape self h' (nat D) (nat H) (nat C) \<and>
         (\<forall>i<nat D. \<forall>j<nat H. elt (param self h' ''W1'') i j = std * g (i * nat H + j)) \<and>
         (\<forall>i<nat H. \<forall>j<nat C.
             elt (param self h' ''W2'') i j = std * g (nat (D * H) + (i * nat C + j))) \<and>
         (\<forall>j<nat H. elt (param self h' ''b1'') 0 j = 0) \<and>
         (\<forall>j<nat C. elt (param self h' ''b2'') 0 j = 0))) \<and>
   shapes_kept h0
     (snd (train draws self0 X y X_val y_val lrate decay reg m num_epochs mu_increase batch_size
             verbose h0)) \<and>
   (train draws self0 X y X_val y_val lrate decay reg m num_epochs mu_increase batch_size verbose h0
      = (Inr (self1, res), h1) \<longrightarrow>
    self1 = self0 \<and> (net_shape self0 h0 D0 H0 C0 \<longrightarrow> net_shape self1 h1 D0 H0 C0))"
proof (intro conjI impI)
  assume a: "0 \<le> D \<and> 0 \<le> H \<and> 0 \<le> C"
  then have e: "init g D H C std h =
     (Inr \<lparr>params = [''W1'' \<mapsto> length h, ''b1'' \<mapsto> length h + 1,
                       ''W2'' \<mapsto> length h + 2, ''b2'' \<mapsto> length h + 3]\<rparr>,
      h @ [scale std (mk (nat D) (nat H) (\<lambda>i j. g (i * nat H + j))),
           mk 1 (nat H) (\<lambda>i j. 0),
           scale std (mk (nat H) (nat C) (\<lambda>i j. g (nat (D * H) + (i * nat C + j)))),
           mk 1 (nat C) (\<lambda>i j. 0)])"
    by (simp add: init_exec)
  show "\<exists>self h'. init g D H C std h = (Inr self, h') \<and> take (length h) h' = h \<and>
         dom (params self) = {''W1'', ''b1'', ''W2'', ''b2''} \<and>
         net_shape self h' (nat D) (nat H) (nat C) \<and>
         (\<forall>i<nat D. \<forall>j<nat H. elt (param self h' ''W1'') i j = std * g (i * nat H + j)) \<and>
         (\<forall>i<nat H. \<forall>j<nat C.
             elt (param self h' ''W2'') i j = std * g (nat (D * H) + (i * nat C + j))) \<and>
         (\<forall>j<nat H. elt (param self h' ''b1'') 0 j = 0) \<and>
         (\<forall>j<nat C. elt (param self h' ''b2'') 0 j = 0)"
    unfolding e
    apply (intro exI conjI, rule refl)
    by (auto simp add: net_shape_def has_param_def param_def nth_append elt_scale)
next
  show "shapes_kept h0
     (snd (train draws self0 X y X_val y_val lrate decay reg m num_epochs mu_increase batch_size
             verbose h0))"
    using sp_train[of draws self0 X y X_val y_val lrate decay reg m num_epochs mu_increase
        batch_size verbose]
    by (simp add: sp_def)
next
  assume t: "train draws self0 X y X_val y_val lrate decay reg m num_epochs mu_increase batch_size
      verbose h0 = (Inr (self1, res), h1)"
  then show s: "self1 = self0" by (rule train_net)
  assume n: "net_shape self0 h0 D0 H0 C0"
  have "shapes_kept h0 h1"
    using sp_train[of draws self0 X y X_val y_val lrate decay reg m num_epochs mu_increase
        batch_size verbose] t
    by (auto simp: sp_def dest!: spec[of _ h0])
  with n s show "net_shape self1 h1 D0 H0 C0" by (auto intro: net_shape_kept)
qed

lemma example_inv:
  "train_inv \<lparr>params = [''W1'' \<mapsto> 1, ''b1'' \<mapsto> 2, ''W2'' \<mapsto> 3, ''b2'' \<mapsto> 4]\<rparr> 0 [0] 0 [0] 1 1 1 1
     \<lparr>net = \<lparr>params = [''W1'' \<mapsto> 1, ''b1'' \<mapsto> 2, ''W2'' \<mapsto> 3, ''b2'' \<mapsto> 4]\<rparr>,
        v_W2 = VNum 0, v_b2 = VNum 0, v_W1 = VNum 0, v_b1 = VNum 0,
        learning_rate = 1, mu = 0,
        hist = \<lparr>loss_history = [], train_acc_history = [], val_acc_history = []\<rparr>\<rparr>
     [mk 1 1 (\<lambda>i j. 1), mk 1 1 (\<lambda>i j. 1), mk 1 1 (\<lambda>i j. 0), mk 1 1 (\<lambda>i j. 1), mk 1 1 (\<lambda>i j. 0)]"
  by (simp add: train_inv_def train_ready_def net_shape_def has_param_def batch_ok_def
      labels_ok_def vels_ok_def vel_ok_def)




theorem init_shapes_train_keeps_witness:
  "(\<exists>self h'. init (\<lambda>k. real k) 2 1 1 3 [] = (Inr self, h') \<and>
      dom (params self) = {''W1'', ''b1'', ''W2'', ''b2''} \<and> net_shape self h' 2 1 1 \<and>
      elt (param self h' ''W1'') 1 0 = 3 \<and> elt (param self h' ''b1'') 0 0 = 0) \<and>
   (\<exists>self' res h'.
     train (\<lambda>i k. 0) \<lparr>params = [''W1'' \<mapsto> 1, ''b1'' \<mapsto> 2, ''W2'' \<mapsto> 3, ''b2'' \<mapsto> 4]\<rparr> 0 [0] 0 [0]
       1 1 1 0 3 1 1 True
       [mk 1 1 (\<lambda>i j. 1), mk 1 1 (\<lambda>i j. 1), mk 1 1 (\<lambda>i j. 0), mk 1 1 (\<lambda>i j. 1), mk 1 1 (\<lambda>i j. 0)]
       = (Inr (self', res), h') \<and>
     self' = \<lparr>params = [''W1'' \<mapsto> 1, ''b1'' \<mapsto> 2, ''W2'' \<mapsto> 3, ''b2'' \<mapsto> 4]\<rparr> \<and>
     net_shape self' h' 1 1 1)"
proof
  from init_shapes_train_keeps[THEN conjunct1, of 2 1 1 "\<lambda>k. real k" 3 "[]"]
  show "\<exists>self h'. init (\<lambda>k. real k) 2 1 1 3 [] = (Inr self, h') \<and>
      dom (params self) = {''W1'', ''b1'', ''W2'', ''b2''} \<and> net_shape self h' 2 1 1 \<and>
      elt (param self h' ''W1'') 1 0 = 3 \<and> elt (param self h' ''b1'') 0 0 = 0"
    by (auto simp: numeral_2_eq_2)
next
  from example_inv have rdy: "train_ready \<lparr>params = [''W1'' \<mapsto> 1, ''b1'' \<mapsto> 2, ''W2'' \<mapsto> 3, ''b2'' \<mapsto> 4]\<rparr>
      0 [0] 0 [0] 1 1 1 1
      [mk 1 1 (\<lambda>i j. 1), mk 1 1 (\<lambda>i j. 1), mk 1 1 (\<lambda>i j. 0), mk 1 1 (\<lambda>i j. 1), mk 1 1 (\<lambda>i j. 0)]"
    by (simp add: train_inv_def)
  then have n: "net_shape \<lparr>params = [''W1'' \<mapsto> 1, ''b1'' \<mapsto> 2, ''W2'' \<mapsto> 3, ''b2'' \<mapsto> 4]\<rparr>
      [mk 1 1 (\<lambda>i j. 1), mk 1 1 (\<lambda>i j. 1), mk 1 1 (\<lambda>i j. 0), mk 1 1 (\<lambda>i j. 1), mk 1 1 (\<lambda>i j. 0)] 1 1 1"
    by (simp add: train_ready_def)
  from train_exec[OF rdy, where batch_size=1 and num_epochs=3 and draws="\<lambda>i k. 0" and lrate=1
      and decay=1 and reg=1 and m=0 and mu_increase=1 and verbose=True]
  obtain self' res h' where run:
    "train (\<lambda>i k. 0) \<lparr>params = [''W1'' \<mapsto> 1, ''b1'' \<mapsto> 2, ''W2'' \<mapsto> 3, ''b2'' \<mapsto> 4]\<rparr> 0 [0] 0 [0]
       1 1 1 0 3 1 1 True
       [mk 1 1 (\<lambda>i j. 1), mk 1 1 (\<lambda>i j. 1), mk 1 1 (\<lambda>i j. 0), mk 1 1 (\<lambda>i j. 1), mk 1 1 (\<lambda>i j. 0)]
       = (Inr (self', res), h')"
    by auto
  from init_shapes_train_keeps[THEN conjunct2, THEN conjunct2, rule_format, OF run] n run
  show "\<exists>self' res h'.
     train (\<lambda>i k. 0) \<lparr>params = [''W1'' \<mapsto> 1, ''b1'' \<mapsto> 2, ''W2'' \<mapsto> 3, ''b2'' \<mapsto> 4]\<rparr> 0 [0] 0 [0]
       1 1 1 0 3 1 1 True
       [mk 1 1 (\<lambda>i j. 1), mk 1 1 (\<lambda>i j. 1), mk 1 1 (\<lambda>i j. 0), mk 1 1 (\<lambda>i j. 1), mk 1 1 (\<lambda>i j. 0)]
       = (Inr (self', res), h') \<and>
     self' = \<lparr>params = [''W1'' \<mapsto> 1, ''b1'' \<mapsto> 2, ''W2'' \<mapsto> 3, ''b2'' \<mapsto> 4]\<rparr> \<and>
     net_shape self' h' 1 1 1"
    by blast
qed

end
